theory Spec2Isabelle
  imports Complex_Main "HOL-Library.Word"
begin


section \<open>Interactive features of the exhibition site (script.js)\<close>

text \<open>
  The script is a set of widgets bound to DOM regions. Each widget class is embedded as a
  record of its fields plus the part of the DOM it writes, and each method as a function
  from the old state to the new one. What a method reads from the browser at call time
  (the window width, the width of the first card, the reduced-motion media query) is
  passed in as an environment record.

  Pixel quantities and indices are JavaScript numbers that hold integers here
  (\<open>window.innerWidth\<close>, \<open>offsetWidth\<close>, \<open>length\<close>, list positions); they are
  modelled as \<open>int\<close> and \<open>nat\<close>, which is exact below \<open>2^53\<close>. Pointer and touch
  coordinates are taken in whole pixels.
\<close>

subsection \<open>Environment\<close>

record env =
  innerWidth :: int
  offsetWidth :: "nat option"
  prefersReducedMotion :: bool

text \<open>
  \<open>offsetWidth\<close> is \<open>cards[0]?.offsetWidth\<close>: \<open>None\<close> when there is no first card
  (the optional chain yields \<open>undefined\<close>). \<open>x || 0\<close> on it is \<open>or_zero\<close>.
\<close>

definition or_zero :: "nat option \<Rightarrow> int" where
  "or_zero w = (case w of None \<Rightarrow> 0 | Some n \<Rightarrow> int n)"

text \<open>
  The remainder operator \<open>a % b\<close> of JavaScript on integers: the sign follows the
  dividend, and a zero divisor gives \<open>NaN\<close> (here \<open>None\<close>).
\<close>

definition js_rem :: "int \<Rightarrow> int \<Rightarrow> int option" where
  "js_rem a b = (if b = 0 then None else Some (sgn a * (\<bar>a\<bar> mod \<bar>b\<bar>)))"

text \<open>
  \<open>Math.round(a / b)\<close> for integers \<open>a\<close> and \<open>b > 0\<close>: the nearest integer, a tie
  going up.
\<close>

definition js_round_div :: "int \<Rightarrow> int \<Rightarrow> int" where
  "js_round_div a b = (2 * a + b) div (2 * b)"

subsection \<open>Hero slider\<close>

text \<open>
  \<open>hero_track\<close> says whether the track element was found. \<open>currentSlide\<close> is
  \<open>None\<close> for \<open>NaN\<close>. \<open>slide_active\<close> holds, per slide, whether
  it carries the class \<open>hero__slide--active\<close>; \<open>pause_label\<close> is the \<open>aria-label\<close> of
  the pause button when there is one (the glyph in its span follows the same test and
  is left out).
\<close>

record hero_slider =
  hero_track :: bool
  slides_length :: nat
  currentSlide :: "int option"
  isPaused :: bool
  slide_active :: "bool list"
  aria_live :: string
  pause_label :: "string option"

definition updateAriaLabels :: "hero_slider \<Rightarrow> hero_slider" where
  "updateAriaLabels s =
     s\<lparr>aria_live := (if isPaused s then ''polite'' else ''off''),
       pause_label := map_option
         (\<lambda>_. if isPaused s then ''Play slideshow'' else ''Pause slideshow'') (pause_label s)\<rparr>"

definition hero_updateSlider :: "hero_slider \<Rightarrow> hero_slider" where
  "hero_updateSlider s =
     updateAriaLabels
       (s\<lparr>slide_active := map (\<lambda>i. Some (int i) = currentSlide s) [0..<slides_length s]\<rparr>)"

definition goToNextSlide :: "hero_slider \<Rightarrow> hero_slider" where
  "goToNextSlide s =
     hero_updateSlider
       (s\<lparr>currentSlide :=
            (case currentSlide s of None \<Rightarrow> None
             | Some c \<Rightarrow> js_rem (c + 1) (int (slides_length s)))\<rparr>)"

definition goToPrevSlide :: "hero_slider \<Rightarrow> hero_slider" where
  "goToPrevSlide s =
     hero_updateSlider
       (s\<lparr>currentSlide :=
            (case currentSlide s of None \<Rightarrow> None
             | Some c \<Rightarrow> js_rem (c - 1 + int (slides_length s)) (int (slides_length s)))\<rparr>)"

definition hero_handleSwipe :: "int \<Rightarrow> int \<Rightarrow> hero_slider \<Rightarrow> hero_slider" where
  "hero_handleSwipe startX endX s =
     (let diff = startX - endX; threshold = 50 in
      if \<bar>diff\<bar> > threshold then
        (if diff > 0 then goToNextSlide s else goToPrevSlide s)
      else s)"

definition toggleAutoplay :: "hero_slider \<Rightarrow> hero_slider" where
  "toggleAutoplay s = updateAriaLabels (s\<lparr>isPaused := \<not> isPaused s\<rparr>)"

text \<open>
  The constructor sets \<open>currentSlide = 0\<close> and calls \<open>init\<close>, which writes the aria
  labels. The slide that is active before the first update comes from the markup.
\<close>

definition hero_new :: "bool \<Rightarrow> nat \<Rightarrow> bool list \<Rightarrow> bool \<Rightarrow> hero_slider" where
  "hero_new track n markup hasPause =
     (let s = \<lparr>hero_track = track, slides_length = n, currentSlide = Some 0, isPaused = False,
               slide_active = markup, aria_live = '''',
               pause_label = (if hasPause then Some '''' else None)\<rparr>
      in if \<not> track \<or> n = 0 then s else updateAriaLabels s)"

text \<open>
  \<open>init\<close> returns before attaching any listener or timer when there is no track or no
  slide, so the calls below only ever reach a slider that has both. \<open>HeroNext\<close> is the
  next button, the right arrow key and the tick of the autoplay interval alike.
\<close>

datatype hero_op = HeroNext | HeroPrev | HeroSwipe int int | HeroToggle

fun hero_apply :: "hero_op \<Rightarrow> hero_slider \<Rightarrow> hero_slider" where
  "hero_apply HeroNext s = goToNextSlide s"
| "hero_apply HeroPrev s = goToPrevSlide s"
| "hero_apply (HeroSwipe a b) s = hero_handleSwipe a b s"
| "hero_apply HeroToggle s = toggleAutoplay s"

definition hero_run :: "hero_op list \<Rightarrow> hero_slider \<Rightarrow> hero_slider" where
  "hero_run ops s =
     (if \<not> hero_track s \<or> slides_length s = 0 then s else fold hero_apply ops s)"

subsection \<open>Items per view\<close>

text \<open>\<open>getCardsPerView\<close> is the same in both card sliders; its input is \<open>window.innerWidth\<close>.\<close>

definition getCardsPerView :: "int \<Rightarrow> int" where
  "getCardsPerView width =
     (if width < 480 then 1
      else if width < 768 then 1
      else if width < 1024 then 2
      else 4)"

subsection \<open>Choose-school slider\<close>

text \<open>
  \<open>cs_transform\<close> is the pixel offset of the last \<open>translateX(...)\<close> written to the track
  (\<open>None\<close> before the first write), \<open>cs_transition\<close> the inline \<open>transition\<close> style when
  the script has set one, \<open>cs_dots\<close> the selected flag of each indicator dot, and
  \<open>cs_prevBtn\<close>, \<open>cs_nextBtn\<close> the \<open>disabled\<close> flag of each button that exists.
\<close>

record choose_slider =
  cs_track :: bool
  cs_cards_length :: nat
  cs_currentIndex :: int
  cs_cardsPerView :: int
  cs_maxIndex :: int
  cs_transform :: "int option"
  cs_transition :: "string option"
  cs_dots :: "bool list"
  cs_prevBtn :: "bool option"
  cs_nextBtn :: "bool option"

definition cs_offset :: "env \<Rightarrow> choose_slider \<Rightarrow> int" where
  "cs_offset e s =
     (let cardWidth = or_zero (offsetWidth e); gap = 24 in
      - (cs_currentIndex s * (cardWidth + gap)))"

definition cs_updateSlider :: "env \<Rightarrow> choose_slider \<Rightarrow> choose_slider" where
  "cs_updateSlider e s =
     (let offset = cs_offset e s;
          s1 = (if \<not> prefersReducedMotion e then s\<lparr>cs_transform := Some offset\<rparr>
                else s\<lparr>cs_transform := Some offset, cs_transition := Some ''none''\<rparr>)
      in s1\<lparr>cs_dots := map (\<lambda>i. int i = cs_currentIndex s) [0..<length (cs_dots s)],
             cs_prevBtn := map_option (\<lambda>_. cs_currentIndex s = 0) (cs_prevBtn s),
             cs_nextBtn := map_option (\<lambda>_. cs_currentIndex s = cs_maxIndex s) (cs_nextBtn s)\<rparr>)"

definition cs_goToNext :: "env \<Rightarrow> choose_slider \<Rightarrow> choose_slider" where
  "cs_goToNext e s =
     (if cs_currentIndex s < cs_maxIndex s
      then cs_updateSlider e (s\<lparr>cs_currentIndex := cs_currentIndex s + 1\<rparr>)
      else s)"

definition cs_goToPrev :: "env \<Rightarrow> choose_slider \<Rightarrow> choose_slider" where
  "cs_goToPrev e s =
     (if cs_currentIndex s > 0
      then cs_updateSlider e (s\<lparr>cs_currentIndex := cs_currentIndex s - 1\<rparr>)
      else s)"

definition cs_goToIndex :: "env \<Rightarrow> int \<Rightarrow> choose_slider \<Rightarrow> choose_slider" where
  "cs_goToIndex e index s =
     cs_updateSlider e (s\<lparr>cs_currentIndex := min index (cs_maxIndex s)\<rparr>)"

definition cs_handleSwipe :: "env \<Rightarrow> int \<Rightarrow> int \<Rightarrow> choose_slider \<Rightarrow> choose_slider" where
  "cs_handleSwipe e startX endX s =
     (let diff = startX - endX; threshold = 50 in
      if \<bar>diff\<bar> > threshold then
        (if diff > 0 then cs_goToNext e s else cs_goToPrev e s)
      else s)"

text \<open>The body of the debounced resize listener registered by \<open>handleResize\<close>.\<close>

definition cs_onResize :: "env \<Rightarrow> choose_slider \<Rightarrow> choose_slider" where
  "cs_onResize e s =
     (let s1 = s\<lparr>cs_cardsPerView := getCardsPerView (innerWidth e)\<rparr>;
          s2 = s1\<lparr>cs_maxIndex := max 0 (int (cs_cards_length s1) - cs_cardsPerView s1)\<rparr>;
          s3 = s2\<lparr>cs_currentIndex := min (cs_currentIndex s2) (cs_maxIndex s2)\<rparr>
      in cs_updateSlider e s3)"

definition cs_init :: "env \<Rightarrow> choose_slider \<Rightarrow> choose_slider" where
  "cs_init e s = (if \<not> cs_track s \<or> cs_cards_length s = 0 then s else cs_updateSlider e s)"

definition cs_new :: "env \<Rightarrow> bool \<Rightarrow> nat \<Rightarrow> bool list \<Rightarrow> bool option \<Rightarrow> bool option \<Rightarrow> choose_slider" where
  "cs_new e track n dots prevBtn nextBtn =
     cs_init e
       \<lparr>cs_track = track, cs_cards_length = n, cs_currentIndex = 0,
        cs_cardsPerView = getCardsPerView (innerWidth e),
        cs_maxIndex = max 0 (int n - getCardsPerView (innerWidth e)),
        cs_transform = None, cs_transition = None, cs_dots = dots,
        cs_prevBtn = prevBtn, cs_nextBtn = nextBtn\<rparr>"

text \<open>
  The calls the listeners make, each with the environment at the time of the call. The
  listeners exist only when \<open>init\<close> got past its guard (a track and at least one card).
\<close>

datatype cs_op = CsNext | CsPrev | CsGoToIndex int | CsResize | CsSwipe int int

fun cs_apply :: "env \<times> cs_op \<Rightarrow> choose_slider \<Rightarrow> choose_slider" where
  "cs_apply (e, CsNext) s = cs_goToNext e s"
| "cs_apply (e, CsPrev) s = cs_goToPrev e s"
| "cs_apply (e, CsGoToIndex i) s = cs_goToIndex e i s"
| "cs_apply (e, CsResize) s = cs_onResize e s"
| "cs_apply (e, CsSwipe a b) s = cs_handleSwipe e a b s"

definition cs_run :: "(env \<times> cs_op) list \<Rightarrow> choose_slider \<Rightarrow> choose_slider" where
  "cs_run ops s = (if \<not> cs_track s \<or> cs_cards_length s = 0 then s else fold cs_apply ops s)"

subsection \<open>Exhibition-benefits slider\<close>

text \<open>
  The fields of the class, the styles and button states it writes, and the variables the
  pointer-drag listeners close over: \<open>eb_isDragging\<close>, \<open>eb_startX\<close>,
  \<open>eb_prevTranslate\<close>, \<open>eb_currentTranslate\<close>.
\<close>

record benefits_slider =
  eb_track :: bool
  eb_cards_length :: nat
  eb_currentIndex :: int
  eb_cardsPerView :: int
  eb_maxIndex :: int
  eb_activated :: bool
  eb_transform :: "int option"
  eb_transition :: "string option"
  eb_prevBtn :: "bool option"
  eb_nextBtn :: "bool option"
  eb_isDragging :: bool
  eb_startX :: int
  eb_prevTranslate :: int
  eb_currentTranslate :: int

definition eb_offset :: "env \<Rightarrow> benefits_slider \<Rightarrow> int" where
  "eb_offset e s =
     (let cardWidth = or_zero (offsetWidth e); gap = 24 in
      - (eb_currentIndex s * (cardWidth + gap)))"

definition eb_updateSlider :: "env \<Rightarrow> benefits_slider \<Rightarrow> benefits_slider" where
  "eb_updateSlider e s =
     (let offset = eb_offset e s;
          s1 = (if \<not> prefersReducedMotion e then s\<lparr>eb_transform := Some offset\<rparr>
                else s\<lparr>eb_transform := Some offset, eb_transition := Some ''none''\<rparr>)
      in s1\<lparr>eb_prevBtn := map_option (\<lambda>_. eb_currentIndex s = 0) (eb_prevBtn s),
             eb_nextBtn := map_option (\<lambda>_. eb_currentIndex s = eb_maxIndex s) (eb_nextBtn s)\<rparr>)"

definition eb_goToNext :: "env \<Rightarrow> benefits_slider \<Rightarrow> benefits_slider" where
  "eb_goToNext e s =
     (if eb_currentIndex s < eb_maxIndex s
      then eb_updateSlider e (s\<lparr>eb_currentIndex := eb_currentIndex s + 1\<rparr>)
      else s)"

definition eb_goToPrev :: "env \<Rightarrow> benefits_slider \<Rightarrow> benefits_slider" where
  "eb_goToPrev e s =
     (if eb_currentIndex s > 0
      then eb_updateSlider e (s\<lparr>eb_currentIndex := eb_currentIndex s - 1\<rparr>)
      else s)"

definition eb_handleSwipe :: "env \<Rightarrow> int \<Rightarrow> int \<Rightarrow> benefits_slider \<Rightarrow> benefits_slider" where
  "eb_handleSwipe e startX endX s =
     (let diff = startX - endX; threshold = 50 in
      if \<bar>diff\<bar> > threshold then
        (if diff > 0 then eb_goToNext e s else eb_goToPrev e s)
      else s)"

definition eb_onResize :: "env \<Rightarrow> benefits_slider \<Rightarrow> benefits_slider" where
  "eb_onResize e s =
     (let s1 = s\<lparr>eb_cardsPerView := getCardsPerView (innerWidth e)\<rparr>;
          s2 = s1\<lparr>eb_maxIndex := max 0 (int (eb_cards_length s1) - eb_cardsPerView s1)\<rparr>;
          s3 = s2\<lparr>eb_currentIndex := min (eb_currentIndex s2) (eb_maxIndex s2)\<rparr>
      in eb_updateSlider e s3)"

text \<open>The pointer listeners; \<open>x\<close> is \<open>e.pageX\<close>, or the first touch's \<open>pageX\<close>.\<close>

definition onPointerDown :: "int \<Rightarrow> benefits_slider \<Rightarrow> benefits_slider" where
  "onPointerDown x s =
     s\<lparr>eb_isDragging := True, eb_startX := x, eb_prevTranslate := eb_currentTranslate s,
       eb_transition := Some ''none''\<rparr>"

definition onPointerMove :: "int \<Rightarrow> benefits_slider \<Rightarrow> benefits_slider" where
  "onPointerMove x s =
     (if \<not> eb_isDragging s then s
      else let movedBy = x - eb_startX s;
               currentTranslate = eb_prevTranslate s + movedBy
           in s\<lparr>eb_currentTranslate := currentTranslate, eb_transform := Some currentTranslate\<rparr>)"

definition onPointerUp :: "env \<Rightarrow> benefits_slider \<Rightarrow> benefits_slider" where
  "onPointerUp e s =
     (if \<not> eb_isDragging s then s
      else let s1 = s\<lparr>eb_isDragging := False, eb_transition := Some []\<rparr>;
               cardWidth = or_zero (offsetWidth e);
               gap = 24;
               slideWidth = cardWidth + gap;
               index = js_round_div (- eb_currentTranslate s1) slideWidth
           in eb_updateSlider e (s1\<lparr>eb_currentIndex := max 0 (min (eb_maxIndex s1) index)\<rparr>))"

definition onWheel :: "env \<Rightarrow> int \<Rightarrow> int \<Rightarrow> benefits_slider \<Rightarrow> benefits_slider" where
  "onWheel e deltaX deltaY s =
     (if \<bar>deltaY\<bar> > \<bar>deltaX\<bar> then
        (if deltaY > 5 then eb_goToNext e s
         else if deltaY < - 5 then eb_goToPrev e s
         else s)
      else s)"

definition eb_init :: "env \<Rightarrow> benefits_slider \<Rightarrow> benefits_slider" where
  "eb_init e s =
     (if eb_activated s then s
      else if \<not> eb_track s \<or> eb_cards_length s = 0 then s
      else eb_updateSlider e (s\<lparr>eb_activated := True\<rparr>))"

definition eb_new :: "env \<Rightarrow> bool \<Rightarrow> nat \<Rightarrow> bool option \<Rightarrow> bool option \<Rightarrow> bool \<Rightarrow> benefits_slider" where
  "eb_new e track n prevBtn nextBtn autoInit =
     (let s = \<lparr>eb_track = track, eb_cards_length = n, eb_currentIndex = 0,
               eb_cardsPerView = getCardsPerView (innerWidth e),
               eb_maxIndex = max 0 (int n - getCardsPerView (innerWidth e)),
               eb_activated = False,
               eb_transform = None, eb_transition = None,
               eb_prevBtn = prevBtn, eb_nextBtn = nextBtn,
               eb_isDragging = False, eb_startX = 0, eb_prevTranslate = 0,
               eb_currentTranslate = 0\<rparr>
      in if autoInit then eb_init e s else s)"

text \<open>
  The calls the listeners make. A \<open>touchend\<close> on the track runs two listeners in the
  order they were added: \<open>EbSwipe\<close> and then \<open>EbPointerUp\<close>. The listeners are attached by
  \<open>init\<close> only, so nothing is dispatched to a slider that was never activated.
\<close>

datatype eb_op =
  EbNext | EbPrev | EbResize | EbSwipe int int
  | EbPointerDown int | EbPointerMove int | EbPointerUp | EbWheel int int

fun eb_apply :: "env \<times> eb_op \<Rightarrow> benefits_slider \<Rightarrow> benefits_slider" where
  "eb_apply (e, EbNext) s = eb_goToNext e s"
| "eb_apply (e, EbPrev) s = eb_goToPrev e s"
| "eb_apply (e, EbResize) s = eb_onResize e s"
| "eb_apply (e, EbSwipe a b) s = eb_handleSwipe e a b s"
| "eb_apply (e, EbPointerDown x) s = onPointerDown x s"
| "eb_apply (e, EbPointerMove x) s = onPointerMove x s"
| "eb_apply (e, EbPointerUp) s = onPointerUp e s"
| "eb_apply (e, EbWheel dx dy) s = onWheel e dx dy s"

definition eb_run :: "(env \<times> eb_op) list \<Rightarrow> benefits_slider \<Rightarrow> benefits_slider" where
  "eb_run ops s = (if \<not> eb_activated s then s else fold eb_apply ops s)"

subsection \<open>Predicates used to state the slider properties\<close>

text \<open>The dots call \<open>goToIndex\<close> with their own position, which is never negative.\<close>

fun cs_dot_call :: "env \<times> cs_op \<Rightarrow> bool" where
  "cs_dot_call (e, CsGoToIndex i) = (0 \<le> i)"
| "cs_dot_call (e, _) = True"

subsection \<open>Form validator\<close>

text \<open>
  What the user types is a JavaScript string, a sequence of 16-bit code units. Attribute
  values, ids and messages written in the script are plain ASCII and are kept as
  \<open>string\<close>; \<open>js\<close> reads such a literal as a JavaScript string.
\<close>

type_synonym jsstring = "16 word list"

definition js :: "string \<Rightarrow> jsstring" where
  "js s = map (\<lambda>c. word_of_nat (of_char c)) s"

text \<open>
  The code units \<open>String.prototype.trim\<close> strips: the white space and line terminator
  characters of ECMAScript.
\<close>

definition isWhiteSpace :: "16 word \<Rightarrow> bool" where
  "isWhiteSpace c \<longleftrightarrow>
     c \<in> {0x9, 0xA, 0xB, 0xC, 0xD, 0x20, 0xA0, 0x1680, 0x2028, 0x2029, 0x202F, 0x205F,
          0x3000, 0xFEFF}
     \<or> (0x2000 \<le> c \<and> c \<le> 0x200A)"

definition trim :: "jsstring \<Rightarrow> jsstring" where
  "trim s = rev (dropWhile isWhiteSpace (rev (dropWhile isWhiteSpace s)))"

definition isDigit :: "16 word \<Rightarrow> bool" where
  "isDigit c \<longleftrightarrow> 0x30 \<le> c \<and> c \<le> 0x39"

text \<open>\<open>/^[0-9]{10}$/.test(value)\<close>: the whole string is exactly ten decimal digits.\<close>

definition phoneRegex_test :: "jsstring \<Rightarrow> bool" where
  "phoneRegex_test v \<longleftrightarrow> length v = 10 \<and> list_all isDigit v"

text \<open>
  An input element of the form: its attributes, its current and default value, the node
  it sits in, and the three things \<open>showError\<close> and \<open>clearError\<close> write on it. An error
  message is a \<open>div\<close> of class \<open>enquiry-form__error\<close> with an id and a text.
\<close>

record field =
  f_id :: string
  f_name :: string
  f_type :: string
  f_required :: bool
  f_value :: jsstring
  f_defaultValue :: jsstring
  f_parent :: nat
  aria_invalid :: bool
  aria_describedby :: "string option"
  error_class :: bool

record error_div =
  e_id :: string
  e_text :: string

text \<open>
  The error messages found under each node, in document order. An input's parent is
  taken to hold its messages as children, and no such parent lies inside another one;
  \<open>querySelector\<close> on the parent then finds the first of its own messages.
\<close>

type_synonym error_store = "nat \<Rightarrow> error_div list"

definition clearError :: "field \<Rightarrow> error_store \<Rightarrow> field \<times> error_store" where
  "clearError f es =
     (f\<lparr>aria_invalid := False, aria_describedby := None, error_class := False\<rparr>,
      es(f_parent f := (case es (f_parent f) of [] \<Rightarrow> [] | existingError # rest \<Rightarrow> rest)))"

definition showError :: "field \<Rightarrow> string \<Rightarrow> error_store \<Rightarrow> field \<times> error_store" where
  "showError f message es =
     (case clearError f es of (f1, es1) \<Rightarrow>
        let errorDiv = \<lparr>e_id = f_id f1 @ ''-error'', e_text = message\<rparr> in
        (f1\<lparr>aria_invalid := True, error_class := True,
            aria_describedby := Some (e_id errorDiv)\<rparr>,
         es1(f_parent f1 := es1 (f_parent f1) @ [errorDiv])))"

text \<open>The first half of \<open>validateField\<close>: the verdict and the message.\<close>

definition checkField :: "field \<Rightarrow> bool \<times> string" where
  "checkField f =
     (let v = trim (f_value f) in
      if f_required f \<and> v = [] then (False, ''This field is required'')
      else if f_type f = ''tel'' \<and> v \<noteq> [] then
        (if \<not> phoneRegex_test v then (False, ''Please enter a valid 10-digit phone number'')
         else (True, ''''))
      else (True, ''''))"

definition validateField :: "field \<Rightarrow> error_store \<Rightarrow> bool \<times> field \<times> error_store" where
  "validateField f es =
     (case checkField f of (isValid, errorMessage) \<Rightarrow>
        (isValid, if \<not> isValid then showError f errorMessage es else clearError f es))"



text \<open>
  The form: its inputs in document order, the error messages, the confirmation messages
  now appended to it (each named by a fresh node number), the pending timeouts (delay
  in milliseconds and the confirmation message the callback removes), and what was
  written to the console. The script has no other output: it never opens a connection.
\<close>

record form =
  inputs :: "field list"
  errors :: error_store
  success :: "nat list"
  next_node :: nat
  timers :: "(nat \<times> nat) list"
  console :: "(string \<times> jsstring) list list"






text \<open>The blur listener of input number \<open>i\<close>, and the input listener.\<close>

definition on_blur :: "nat \<Rightarrow> form \<Rightarrow> form" where
  "on_blur i st =
     (if i < length (inputs st) then
        (case validateField (inputs st ! i) (errors st) of (ok, f1, es1) \<Rightarrow>
           st\<lparr>inputs := (inputs st)[i := f1], errors := es1\<rparr>)
      else st)"

definition on_input :: "nat \<Rightarrow> jsstring \<Rightarrow> form \<Rightarrow> form" where
  "on_input i v st =
     (if i < length (inputs st) then
        (case clearError ((inputs st ! i)\<lparr>f_value := v\<rparr>) (errors st) of (f1, es1) \<Rightarrow>
           st\<lparr>inputs := (inputs st)[i := f1], errors := es1\<rparr>)
      else st)"


text \<open>What a failing required input looks like after \<open>showError\<close>.\<close>

definition marked_invalid :: "field \<Rightarrow> bool" where
  "marked_invalid f \<longleftrightarrow>
     aria_invalid f \<and> error_class f \<and> aria_describedby f = Some (f_id f @ ''-error'')"

subsection \<open>Sample form\<close>

text \<open>
  A page that shows no error message yet, and a form on it with a required name field
  and a required phone field, each in a node of its own.
\<close>

definition no_errors :: error_store where
  "no_errors = (\<lambda>_. [])"

definition demo_field :: "string \<Rightarrow> string \<Rightarrow> bool \<Rightarrow> jsstring \<Rightarrow> nat \<Rightarrow> field" where
  "demo_field i t r v p =
     \<lparr>f_id = i, f_name = i, f_type = t, f_required = r, f_value = v, f_defaultValue = [],
      f_parent = p, aria_invalid = False, aria_describedby = None, error_class = False\<rparr>"


subsection \<open>Visibility trigger\<close>

text \<open>
  Elements are numbered. The page holds the class list of each element, the
  \<open>IntersectionObserver\<close> made by \<open>initScrollAnimations\<close> when there is one (its options
  and its observation targets, in the order they were added), the lazily created
  benefits slider stored in \<open>window.__benefitsSlider\<close>, and a trace \<open>revealed\<close> of the
  calls \<open>classList.add('animate-in')\<close>, one entry per call, naming the element.
\<close>

record observer_state =
  threshold :: rat
  rootMargin :: string
  targets :: "nat list"

record page =
  classList :: "nat \<Rightarrow> string list"
  observer :: "observer_state option"
  benefitsSlider :: "benefits_slider option"
  revealed :: "nat list"

text \<open>\<open>DOMTokenList.add\<close>, and \<open>observe\<close> and \<open>unobserve\<close> of the observer.\<close>

definition classList_add :: "string \<Rightarrow> string list \<Rightarrow> string list" where
  "classList_add c cs = (if c \<in> set cs then cs else cs @ [c])"

definition observe :: "nat \<Rightarrow> observer_state \<Rightarrow> observer_state" where
  "observe t ob = (if t \<in> set (targets ob) then ob else ob\<lparr>targets := targets ob @ [t]\<rparr>)"

definition unobserve :: "nat \<Rightarrow> observer_state \<Rightarrow> observer_state" where
  "unobserve t ob = ob\<lparr>targets := removeAll t (targets ob)\<rparr>"

text \<open>
  The body of the observer callback for one entry \<open>(target, isIntersecting)\<close>, and the
  callback itself, which runs it over the entries in order.
\<close>

definition on_entry :: "env \<Rightarrow> nat \<times> bool \<Rightarrow> page \<Rightarrow> page" where
  "on_entry e entry p =
     (case entry of (target, isIntersecting) \<Rightarrow>
        if isIntersecting then
          let p1 = p\<lparr>classList :=
                       (classList p)(target := classList_add ''animate-in'' (classList p target)),
                     revealed := revealed p @ [target]\<rparr>;
              p2 = (if ''exhibition-benefits'' \<in> set (classList p1 target)
                       \<and> benefitsSlider p1 \<noteq> None
                    then p1\<lparr>benefitsSlider := map_option (eb_init e) (benefitsSlider p1)\<rparr>
                    else p1)
          in p2\<lparr>observer := map_option (unobserve target) (observer p2)\<rparr>
        else p)"

definition observer_callback :: "env \<Rightarrow> (nat \<times> bool) list \<Rightarrow> page \<Rightarrow> page" where
  "observer_callback e entries p = fold (on_entry e) entries p"

text \<open>
  The browser's side. When it updates the intersection observations it goes through the
  observation targets and queues one entry for each target whose state of intersection,
  judged by the observer's threshold and root margin, has changed; \<open>changes\<close> gives the
  new state of those elements. It then calls the callback with the queued entries.
\<close>

definition queued_entries :: "(nat \<Rightarrow> bool option) \<Rightarrow> nat list \<Rightarrow> (nat \<times> bool) list" where
  "queued_entries changes ts = List.map_filter (\<lambda>t. map_option (Pair t) (changes t)) ts"

definition notify :: "env \<Rightarrow> (nat \<Rightarrow> bool option) \<Rightarrow> page \<Rightarrow> page" where
  "notify e changes p =
     (case observer p of None \<Rightarrow> p
      | Some ob \<Rightarrow> observer_callback e (queued_entries changes (targets ob)) p)"

text \<open>
  \<open>initScrollAnimations\<close>; \<open>doc\<close> lists the elements of the document in order, and the
  selector picks those that carry one of the five section classes.
\<close>

definition tracked_classes :: "string list" where
  "tracked_classes =
     [''stats'', ''participating-schools'', ''choose-school'', ''appointments'',
      ''exhibition-benefits'']"

definition tracked_sections :: "nat list \<Rightarrow> page \<Rightarrow> nat list" where
  "tracked_sections doc p =
     filter (\<lambda>el. list_ex (\<lambda>c. c \<in> set (classList p el)) tracked_classes) doc"

definition initScrollAnimations :: "env \<Rightarrow> nat list \<Rightarrow> page \<Rightarrow> page" where
  "initScrollAnimations e doc p =
     (if prefersReducedMotion e then p
      else p\<lparr>observer := Some
               (fold observe (tracked_sections doc p)
                  \<lparr>threshold = 1 / 10, rootMargin = ''0px 0px -50px 0px'', targets = []\<rparr>)\<rparr>)"

text \<open>
  The part of \<open>init\<close> that concerns the trigger: the benefits slider is constructed
  with \<open>autoInit = false\<close> when its container exists (\<open>container\<close> then gives what the
  constructor finds in it: track, number of cards, buttons), and the observer is set up.
\<close>

definition init_page ::
  "env \<Rightarrow> nat list \<Rightarrow> (nat \<Rightarrow> string list) \<Rightarrow> (bool \<times> nat \<times> bool option \<times> bool option) option \<Rightarrow> page" where
  "init_page e doc cls container =
     initScrollAnimations e doc
       \<lparr>classList = cls, observer = None,
        benefitsSlider =
          map_option (\<lambda>(track, n, prevBtn, nextBtn). eb_new e track n prevBtn nextBtn False)
            container,
        revealed = []\<rparr>"

text \<open>
  What happens on the page afterwards, as far as the trigger and the benefits slider go:
  the observer is notified, or one of the benefits slider's listeners is called (there
  are none until \<open>init\<close> has attached them).
\<close>

datatype page_event = Notify "nat \<Rightarrow> bool option" | Benefits eb_op

fun page_step :: "env \<times> page_event \<Rightarrow> page \<Rightarrow> page" where
  "page_step (e, Notify changes) p = notify e changes p"
| "page_step (e, Benefits op) p =
     p\<lparr>benefitsSlider := map_option (eb_run [(e, op)]) (benefitsSlider p)\<rparr>"

definition page_run :: "(env \<times> page_event) list \<Rightarrow> page \<Rightarrow> page" where
  "page_run evs p = fold page_step evs p"

subsection \<open>Sample page\<close>

text \<open>
  Six elements: the header, which is not tracked, then the five tracked sections; the
  benefits section is element 5 and its slider has a track and five cards.
\<close>

definition demo_classes :: "nat \<Rightarrow> string list" where
  "demo_classes =
     (\<lambda>_. [])(0 := [''header''], 1 := [''stats''], 2 := [''participating-schools''],
              3 := [''choose-school''], 4 := [''appointments''],
              5 := [''exhibition-benefits''])"

definition demo_page :: "env \<Rightarrow> page" where
  "demo_page e = init_page e [0, 1, 2, 3, 4, 5] demo_classes (Some (True, 5, Some True, Some False))"

text \<open>
  The range invariant of the two card sliders, with \<open>maxIndex\<close> tied to the card count
  and the cards per view, and the range of the hero slider's index.
\<close>

definition cs_inv :: "choose_slider \<Rightarrow> bool" where
  "cs_inv s \<longleftrightarrow>
     0 \<le> cs_currentIndex s \<and> cs_currentIndex s \<le> cs_maxIndex s
     \<and> cs_maxIndex s = max 0 (int (cs_cards_length s) - cs_cardsPerView s)"

definition eb_inv :: "benefits_slider \<Rightarrow> bool" where
  "eb_inv s \<longleftrightarrow>
     0 \<le> eb_currentIndex s \<and> eb_currentIndex s \<le> eb_maxIndex s
     \<and> eb_maxIndex s = max 0 (int (eb_cards_length s) - eb_cardsPerView s)"

definition hero_inv :: "hero_slider \<Rightarrow> bool" where
  "hero_inv s \<longleftrightarrow>
     (case currentSlide s of None \<Rightarrow> False
      | Some c \<Rightarrow> 0 \<le> c \<and> c < int (slides_length s))"

subsection \<open>Sample widgets\<close>

text \<open>
  A desktop window (1400px wide, cards 300px wide, animations allowed), a choose-school
  slider and a benefits slider with five cards each, and a hero slider with three slides.
\<close>

definition demo_env :: env where
  "demo_env = \<lparr>innerWidth = 1400, offsetWidth = Some 300, prefersReducedMotion = False\<rparr>"

definition demo_cs :: choose_slider where
  "demo_cs = cs_new demo_env True 5 [True, False] (Some True) (Some False)"

definition demo_eb :: benefits_slider where
  "demo_eb = eb_init demo_env (eb_new demo_env True 5 (Some True) (Some False) False)"

definition demo_hero :: hero_slider where
  "demo_hero = hero_new True 3 [True, False, False] True"

subsection \<open>Predicates used to state the trigger properties\<close>

text \<open>
  No element was revealed twice, and none that was revealed is still observed; and the
  state of a page on which nothing has been revealed and no observer exists.
\<close>

definition reveal_inv :: "page \<Rightarrow> bool" where
  "reveal_inv p \<longleftrightarrow>
     distinct (revealed p)
     \<and> (case observer p of None \<Rightarrow> revealed p = []
        | Some ob \<Rightarrow> distinct (targets ob) \<and> set (revealed p) \<inter> set (targets ob) = {})"

definition dormant :: "(nat \<Rightarrow> string list) \<Rightarrow> benefits_slider option \<Rightarrow> page \<Rightarrow> bool" where
  "dormant cls bs p \<longleftrightarrow>
     observer p = None \<and> classList p = cls \<and> revealed p = [] \<and> benefitsSlider p = bs"

section \<open>Properties of the sliders\<close>

subsection \<open>Auxiliary facts\<close>

lemma cs_updateSlider_fields [simp]:
  "cs_currentIndex (cs_updateSlider e s) = cs_currentIndex s"
  "cs_maxIndex (cs_updateSlider e s) = cs_maxIndex s"
  "cs_cardsPerView (cs_updateSlider e s) = cs_cardsPerView s"
  "cs_cards_length (cs_updateSlider e s) = cs_cards_length s"
  "cs_track (cs_updateSlider e s) = cs_track s"
  by (simp_all add: cs_updateSlider_def Let_def)

lemma eb_updateSlider_fields [simp]:
  "eb_currentIndex (eb_updateSlider e s) = eb_currentIndex s"
  "eb_maxIndex (eb_updateSlider e s) = eb_maxIndex s"
  "eb_cardsPerView (eb_updateSlider e s) = eb_cardsPerView s"
  "eb_cards_length (eb_updateSlider e s) = eb_cards_length s"
  "eb_track (eb_updateSlider e s) = eb_track s"
  "eb_activated (eb_updateSlider e s) = eb_activated s"
  by (simp_all add: eb_updateSlider_def Let_def)

lemma hero_updateSlider_fields [simp]:
  "currentSlide (hero_updateSlider s) = currentSlide s"
  "slides_length (hero_updateSlider s) = slides_length s"
  "currentSlide (updateAriaLabels s) = currentSlide s"
  "slides_length (updateAriaLabels s) = slides_length s"
  by (simp_all add: hero_updateSlider_def updateAriaLabels_def)

lemma js_rem_nonneg: "0 \<le> a \<Longrightarrow> 0 < b \<Longrightarrow> js_rem a b = Some (a mod b)"
  by (simp add: js_rem_def sgn_if zmod_minus1)

lemma cs_inv_updateSlider [simp]: "cs_inv (cs_updateSlider e s) = cs_inv s"
  by (simp add: cs_inv_def)

lemma eb_inv_updateSlider [simp]: "eb_inv (eb_updateSlider e s) = eb_inv s"
  by (simp add: eb_inv_def)

lemma cs_apply_inv:
  assumes "cs_inv s" and "cs_dot_call x"
  shows "cs_inv (cs_apply x s) \<and> cs_cards_length (cs_apply x s) = cs_cards_length s"
proof (cases x)
  case (Pair e op)
  show ?thesis
  proof (cases op)
    case CsNext
    with Pair assms show ?thesis by (simp add: cs_goToNext_def) (simp add: cs_inv_def)
  next
    case CsPrev
    with Pair assms show ?thesis by (simp add: cs_goToPrev_def) (simp add: cs_inv_def)
  next
    case (CsGoToIndex i)
    with Pair assms show ?thesis by (simp add: cs_goToIndex_def) (simp add: cs_inv_def)
  next
    case CsResize
    with Pair assms show ?thesis by (simp add: cs_onResize_def Let_def) (simp add: cs_inv_def)
  next
    case (CsSwipe a b)
    with Pair assms show ?thesis
      by (auto simp add: cs_handleSwipe_def cs_goToNext_def cs_goToPrev_def Let_def cs_inv_def)
  qed
qed

lemma cs_fold_inv:
  "cs_inv s \<Longrightarrow> list_all cs_dot_call ops \<Longrightarrow>
   cs_inv (fold cs_apply ops s) \<and> cs_cards_length (fold cs_apply ops s) = cs_cards_length s"
proof (induction ops arbitrary: s)
  case Nil
  then show ?case by simp
next
  case (Cons x xs)
  from Cons.prems have step: "cs_inv (cs_apply x s)" "cs_cards_length (cs_apply x s) = cs_cards_length s"
    using cs_apply_inv [of s x] by simp_all
  from Cons.prems have "list_all cs_dot_call xs" by simp
  with Cons.IH [OF step(1)] step(2) show ?case by simp
qed

lemma cs_new_inv: "cs_inv (cs_new e track n dots pb nb) \<and> cs_cards_length (cs_new e track n dots pb nb) = n"
  by (simp add: cs_new_def cs_init_def) (simp add: cs_inv_def)

lemma eb_apply_inv:
  assumes "eb_inv s"
  shows "eb_inv (eb_apply x s) \<and> eb_cards_length (eb_apply x s) = eb_cards_length s"
proof (cases x)
  case (Pair e op)
  show ?thesis
  proof (cases op)
    case EbNext
    with Pair assms show ?thesis by (simp add: eb_goToNext_def) (simp add: eb_inv_def)
  next
    case EbPrev
    with Pair assms show ?thesis by (simp add: eb_goToPrev_def) (simp add: eb_inv_def)
  next
    case EbResize
    with Pair assms show ?thesis by (simp add: eb_onResize_def Let_def) (simp add: eb_inv_def)
  next
    case (EbSwipe a b)
    with Pair assms show ?thesis
      by (auto simp add: eb_handleSwipe_def eb_goToNext_def eb_goToPrev_def Let_def eb_inv_def)
  next
    case (EbPointerDown x)
    with Pair assms show ?thesis by (simp add: onPointerDown_def eb_inv_def)
  next
    case (EbPointerMove x)
    with Pair assms show ?thesis by (simp add: onPointerMove_def eb_inv_def Let_def)
  next
    case EbPointerUp
    with Pair assms show ?thesis by (simp add: onPointerUp_def Let_def) (simp add: eb_inv_def)
  next
    case (EbWheel dx dy)
    with Pair assms show ?thesis
      by (auto simp add: onWheel_def eb_goToNext_def eb_goToPrev_def eb_inv_def)
  qed
qed

lemma eb_fold_inv:
  "eb_inv s \<Longrightarrow>
   eb_inv (fold eb_apply ops s) \<and> eb_cards_length (fold eb_apply ops s) = eb_cards_length s"
proof (induction ops arbitrary: s)
  case Nil
  then show ?case by simp
next
  case (Cons x xs)
  from Cons.prems have step: "eb_inv (eb_apply x s)" "eb_cards_length (eb_apply x s) = eb_cards_length s"
    using eb_apply_inv [of s x] by simp_all
  with Cons.IH [OF step(1)] show ?case by simp
qed

lemma eb_new_inv:
  "eb_inv (eb_new e track n pb nb a) \<and> eb_cards_length (eb_new e track n pb nb a) = n"
  by (simp add: eb_new_def eb_init_def Let_def) (simp add: eb_inv_def)

lemma eb_init_inv:
  "eb_inv s \<Longrightarrow> eb_inv (eb_init e s) \<and> eb_cards_length (eb_init e s) = eb_cards_length s"
  by (simp add: eb_init_def) (simp add: eb_inv_def)

lemma hero_apply_inv:
  assumes "hero_inv s"
  shows "hero_inv (hero_apply x s) \<and> slides_length (hero_apply x s) = slides_length s"
proof -
  from assms obtain c where c: "currentSlide s = Some c" "0 \<le> c" "c < int (slides_length s)"
    by (auto simp: hero_inv_def split: option.splits)
  have nxt: "hero_inv (goToNextSlide s) \<and> slides_length (goToNextSlide s) = slides_length s"
    using c by (simp add: goToNextSlide_def hero_inv_def js_rem_nonneg)
  have prv: "hero_inv (goToPrevSlide s) \<and> slides_length (goToPrevSlide s) = slides_length s"
    using c by (simp add: goToPrevSlide_def hero_inv_def js_rem_nonneg)
  show ?thesis
  proof (cases x)
    case HeroNext
    with nxt show ?thesis by simp
  next
    case HeroPrev
    with prv show ?thesis by simp
  next
    case (HeroSwipe a b)
    with nxt prv assms show ?thesis by (simp add: hero_handleSwipe_def Let_def)
  next
    case HeroToggle
    with assms show ?thesis by (auto simp add: toggleAutoplay_def hero_inv_def updateAriaLabels_def split: option.splits)
  qed
qed

lemma hero_fold_inv:
  "hero_inv s \<Longrightarrow>
   hero_inv (fold hero_apply ops s) \<and> slides_length (fold hero_apply ops s) = slides_length s"
proof (induction ops arbitrary: s)
  case Nil
  then show ?case by simp
next
  case (Cons x xs)
  from Cons.prems have step: "hero_inv (hero_apply x s)" "slides_length (hero_apply x s) = slides_length s"
    using hero_apply_inv [of s x] by simp_all
  with Cons.IH [OF step(1)] show ?case by simp
qed

lemma hero_new_inv:
  "0 < n \<Longrightarrow> hero_inv (hero_new tr n m p) \<and> slides_length (hero_new tr n m p) = n"
  by (simp add: hero_new_def hero_inv_def Let_def)

lemma demo_cs_eq:
  "demo_cs = \<lparr>cs_track = True, cs_cards_length = 5, cs_currentIndex = 0, cs_cardsPerView = 4,
      cs_maxIndex = 1, cs_transform = Some 0, cs_transition = None, cs_dots = [True, False],
      cs_prevBtn = Some True, cs_nextBtn = Some False\<rparr>"
  by (simp add: demo_cs_def demo_env_def cs_new_def cs_init_def cs_updateSlider_def
      cs_offset_def or_zero_def getCardsPerView_def Let_def)

lemma demo_eb_eq:
  "demo_eb = \<lparr>eb_track = True, eb_cards_length = 5, eb_currentIndex = 0, eb_cardsPerView = 4,
      eb_maxIndex = 1, eb_activated = True, eb_transform = Some 0, eb_transition = None,
      eb_prevBtn = Some True, eb_nextBtn = Some False,
      eb_isDragging = False, eb_startX = 0, eb_prevTranslate = 0, eb_currentTranslate = 0\<rparr>"
  by (simp add: demo_eb_def demo_env_def eb_new_def eb_init_def eb_updateSlider_def
      eb_offset_def or_zero_def getCardsPerView_def Let_def)

lemma demo_hero_eq:
  "demo_hero = \<lparr>hero_track = True, slides_length = 3, currentSlide = Some 0, isPaused = False,
      slide_active = [True, False, False], aria_live = ''off'',
      pause_label = Some ''Pause slideshow''\<rparr>"
  by (simp add: demo_hero_def hero_new_def updateAriaLabels_def)

lemma demo_cs_next:
  "cs_goToNext demo_env demo_cs = \<lparr>cs_track = True, cs_cards_length = 5, cs_currentIndex = 1,
      cs_cardsPerView = 4, cs_maxIndex = 1, cs_transform = Some (- 324), cs_transition = None,
      cs_dots = [False, True], cs_prevBtn = Some False, cs_nextBtn = Some True\<rparr>"
  by (simp add: demo_cs_eq demo_env_def cs_goToNext_def cs_updateSlider_def
      cs_offset_def or_zero_def Let_def)

lemma demo_eb_next:
  "eb_goToNext demo_env demo_eb = \<lparr>eb_track = True, eb_cards_length = 5, eb_currentIndex = 1,
      eb_cardsPerView = 4,
      eb_maxIndex = 1, eb_activated = True, eb_transform = Some (- 324), eb_transition = None,
      eb_prevBtn = Some False, eb_nextBtn = Some True,
      eb_isDragging = False, eb_startX = 0, eb_prevTranslate = 0, eb_currentTranslate = 0\<rparr>"
  by (simp add: demo_eb_eq demo_env_def eb_goToNext_def eb_updateSlider_def
      eb_offset_def or_zero_def Let_def)

lemma demo_hero_last:
  "hero_run [HeroNext, HeroNext] demo_hero = \<lparr>hero_track = True, slides_length = 3, currentSlide = Some 2,
      isPaused = False, slide_active = [False, False, True], aria_live = ''off'',
      pause_label = Some ''Pause slideshow''\<rparr>"
  by (simp add: demo_hero_eq hero_run_def goToNextSlide_def hero_updateSlider_def
      updateAriaLabels_def js_rem_def upt_conv_Cons)

lemma cs_swipe_cases:
  "(\<bar>a - b\<bar> \<le> 50 \<longrightarrow> cs_handleSwipe e a b s = s)
   \<and> (50 < a - b \<longrightarrow> cs_handleSwipe e a b s = cs_goToNext e s)
   \<and> (a - b < - 50 \<longrightarrow> cs_handleSwipe e a b s = cs_goToPrev e s)"
  by (simp add: cs_handleSwipe_def Let_def)

lemma eb_swipe_cases:
  "(\<bar>a - b\<bar> \<le> 50 \<longrightarrow> eb_handleSwipe e a b s = s)
   \<and> (50 < a - b \<longrightarrow> eb_handleSwipe e a b s = eb_goToNext e s)
   \<and> (a - b < - 50 \<longrightarrow> eb_handleSwipe e a b s = eb_goToPrev e s)"
  by (simp add: eb_handleSwipe_def Let_def)

lemma hero_swipe_cases:
  "(\<bar>a - b\<bar> \<le> 50 \<longrightarrow> hero_handleSwipe a b s = s)
   \<and> (50 < a - b \<longrightarrow> hero_handleSwipe a b s = goToNextSlide s)
   \<and> (a - b < - 50 \<longrightarrow> hero_handleSwipe a b s = goToPrevSlide s)"
  by (simp add: hero_handleSwipe_def Let_def)

lemma cs_step_index:
  "cs_currentIndex (cs_goToNext e s)
     = (if cs_currentIndex s < cs_maxIndex s then cs_currentIndex s + 1 else cs_currentIndex s)"
  "cs_currentIndex (cs_goToPrev e s)
     = (if 0 < cs_currentIndex s then cs_currentIndex s - 1 else cs_currentIndex s)"
  by (simp_all add: cs_goToNext_def cs_goToPrev_def)

lemma eb_step_index:
  "eb_currentIndex (eb_goToNext e s)
     = (if eb_currentIndex s < eb_maxIndex s then eb_currentIndex s + 1 else eb_currentIndex s)"
  "eb_currentIndex (eb_goToPrev e s)
     = (if 0 < eb_currentIndex s then eb_currentIndex s - 1 else eb_currentIndex s)"
  by (simp_all add: eb_goToNext_def eb_goToPrev_def)

lemma hero_step_index:
  assumes "currentSlide h = Some c" and "0 \<le> c" and "c < int (slides_length h)"
  shows "currentSlide (goToNextSlide h) = Some ((c + 1) mod int (slides_length h))"
    and "currentSlide (goToPrevSlide h) = Some ((c - 1) mod int (slides_length h))"
  using assms by (simp_all add: goToNextSlide_def goToPrevSlide_def js_rem_nonneg)

subsection \<open>Items per view (claim C8)\<close>

text \<open>
  Claim C8. The items-per-view function of the window width returns 1 for every width
  below 480px, 2 for a width of 900px and 4 for a width of 1400px.
\<close>

theorem getCardsPerView_buckets:
  "(\<forall>w. w < 480 \<longrightarrow> getCardsPerView w = 1)
   \<and> getCardsPerView 900 = 2 \<and> getCardsPerView 1400 = 4"
  by (simp add: getCardsPerView_def)

text \<open>The three buckets at 479px, at a negative width, at 900px and at 1400px.\<close>

theorem getCardsPerView_buckets_witness:
  "(479::int) < 480 \<and> getCardsPerView 479 = 1 \<and> getCardsPerView (- 3) = 1
   \<and> getCardsPerView 900 = 2 \<and> getCardsPerView 1400 = 4"
  using getCardsPerView_buckets by simp

subsection \<open>Pixel offset (claim C7)\<close>


subsection \<open>Behaviour at the two ends (claim C1)\<close>

text \<open>
  Claim C1, as amended. For the choose-school and the benefits slider, \<open>next\<close> at
  \<open>index = maxIndex\<close> and \<open>prev\<close> at \<open>index = 0\<close> change nothing at all (neither the
  index nor anything rendered); inside the range they move the index by one, clamped to
  \<open>[0, maxIndex]\<close>. The hero slider is cyclic instead: \<open>next\<close> on the last slide goes to
  slide 0 and \<open>prev\<close> on slide 0 goes to the last slide.
\<close>

theorem bounds_noop_or_wrap:
  "(cs_currentIndex s = cs_maxIndex s \<longrightarrow> cs_goToNext e s = s)
   \<and> (cs_currentIndex s = 0 \<longrightarrow> cs_goToPrev e s = s)
   \<and> (cs_currentIndex s \<le> cs_maxIndex s \<longrightarrow>
        cs_currentIndex (cs_goToNext e s) = min (cs_currentIndex s + 1) (cs_maxIndex s))
   \<and> (0 \<le> cs_currentIndex s \<longrightarrow>
        cs_currentIndex (cs_goToPrev e s) = max (cs_currentIndex s - 1) 0)
   \<and> (eb_currentIndex b = eb_maxIndex b \<longrightarrow> eb_goToNext e b = b)
   \<and> (eb_currentIndex b = 0 \<longrightarrow> eb_goToPrev e b = b)
   \<and> (eb_currentIndex b \<le> eb_maxIndex b \<longrightarrow>
        eb_currentIndex (eb_goToNext e b) = min (eb_currentIndex b + 1) (eb_maxIndex b))
   \<and> (0 \<le> eb_currentIndex b \<longrightarrow>
        eb_currentIndex (eb_goToPrev e b) = max (eb_currentIndex b - 1) 0)
   \<and> (0 < slides_length h \<and> currentSlide h = Some (int (slides_length h) - 1) \<longrightarrow>
        currentSlide (goToNextSlide h) = Some 0)
   \<and> (0 < slides_length h \<and> currentSlide h = Some 0 \<longrightarrow>
        currentSlide (goToPrevSlide h) = Some (int (slides_length h) - 1))"
  by (simp add: cs_goToNext_def cs_goToPrev_def eb_goToNext_def eb_goToPrev_def
      goToNextSlide_def goToPrevSlide_def js_rem_def sgn_if zmod_minus1)

text \<open>
  The sample sliders at their last position (index 1 of 1, slide 2 of 3) and at their
  first one.
\<close>

theorem bounds_noop_or_wrap_witness:
  "cs_currentIndex (cs_goToNext demo_env demo_cs) = cs_maxIndex (cs_goToNext demo_env demo_cs)
   \<and> cs_goToNext demo_env (cs_goToNext demo_env demo_cs) = cs_goToNext demo_env demo_cs
   \<and> cs_currentIndex demo_cs = 0 \<and> cs_goToPrev demo_env demo_cs = demo_cs
   \<and> cs_currentIndex (cs_goToNext demo_env demo_cs) = 1
   \<and> cs_currentIndex (cs_goToPrev demo_env (cs_goToNext demo_env demo_cs)) = 0
   \<and> eb_currentIndex (eb_goToNext demo_env demo_eb) = eb_maxIndex (eb_goToNext demo_env demo_eb)
   \<and> eb_goToNext demo_env (eb_goToNext demo_env demo_eb) = eb_goToNext demo_env demo_eb
   \<and> eb_currentIndex demo_eb = 0 \<and> eb_goToPrev demo_env demo_eb = demo_eb
   \<and> eb_currentIndex (eb_goToNext demo_env demo_eb) = 1
   \<and> eb_currentIndex (eb_goToPrev demo_env (eb_goToNext demo_env demo_eb)) = 0
   \<and> currentSlide (hero_run [HeroNext, HeroNext] demo_hero) = Some 2
   \<and> currentSlide (goToNextSlide (hero_run [HeroNext, HeroNext] demo_hero)) = Some 0
   \<and> currentSlide demo_hero = Some 0
   \<and> currentSlide (goToPrevSlide demo_hero) = Some 2"
  using bounds_noop_or_wrap [of "cs_goToNext demo_env demo_cs" demo_env
      "eb_goToNext demo_env demo_eb" "hero_run [HeroNext, HeroNext] demo_hero"]
    bounds_noop_or_wrap [of demo_cs demo_env demo_eb demo_hero]
  by (simp add: demo_cs_next demo_eb_next demo_hero_last)
     (simp add: demo_cs_eq demo_eb_eq demo_hero_eq)

text \<open>
  The claim as first stated, that \<open>next\<close> at the last position is a no-op for every
  carousel, fails for the hero slider: with three slides, \<open>next\<close> on slide 2 gives slide 0.
\<close>

theorem hero_next_wraps_counterexample:
  "currentSlide (hero_run [HeroNext, HeroNext] (hero_new True 3 [True, False, False] True))
     = Some (int 3 - 1)
   \<and> currentSlide (goToNextSlide
        (hero_run [HeroNext, HeroNext] (hero_new True 3 [True, False, False] True))) = Some 0
   \<and> goToNextSlide (hero_run [HeroNext, HeroNext] (hero_new True 3 [True, False, False] True))
     \<noteq> hero_run [HeroNext, HeroNext] (hero_new True 3 [True, False, False] True)"
  by (simp add: demo_hero_last [unfolded demo_hero_def] goToNextSlide_def hero_updateSlider_def
      updateAriaLabels_def js_rem_def upt_conv_Cons)

subsection \<open>The index stays in range (claim C2)\<close>

text \<open>
  Claim C2, as amended. From the state the constructor leaves, after any sequence of
  \<open>next\<close>, \<open>prev\<close>, \<open>goToIndex i\<close> with \<open>i \<ge> 0\<close>, swipes and resizes, the choose-school
  slider has \<open>0 \<le> index \<le> maxIndex\<close> and \<open>maxIndex = max 0 (itemCount - itemsPerView)\<close>.
  The same holds for the benefits slider, whether activated at construction or later,
  after any sequence of its listeners' calls (buttons, swipes, pointer drags, wheel,
  resizes), and the hero slider's index stays within \<open>[0, slides - 1]\<close>. A resize sets
  the items per view from the window width, recomputes \<open>maxIndex\<close> and clamps the index
  to it.
\<close>

theorem index_stays_in_range:
  assumes "list_all cs_dot_call ops"
  shows "0 \<le> cs_currentIndex (cs_run ops (cs_new e0 track n dots pb nb))
    \<and> cs_currentIndex (cs_run ops (cs_new e0 track n dots pb nb))
        \<le> cs_maxIndex (cs_run ops (cs_new e0 track n dots pb nb))
    \<and> cs_maxIndex (cs_run ops (cs_new e0 track n dots pb nb))
        = max 0 (int n - cs_cardsPerView (cs_run ops (cs_new e0 track n dots pb nb)))
    \<and> 0 \<le> eb_currentIndex (eb_run bops (eb_init e2 (eb_new e1 btrack k bpb bnb auto)))
    \<and> eb_currentIndex (eb_run bops (eb_init e2 (eb_new e1 btrack k bpb bnb auto)))
        \<le> eb_maxIndex (eb_run bops (eb_init e2 (eb_new e1 btrack k bpb bnb auto)))
    \<and> eb_maxIndex (eb_run bops (eb_init e2 (eb_new e1 btrack k bpb bnb auto)))
        = max 0 (int k
            - eb_cardsPerView (eb_run bops (eb_init e2 (eb_new e1 btrack k bpb bnb auto))))
    \<and> (0 < m \<longrightarrow>
         (\<exists>c. currentSlide (hero_run hops (hero_new htrack m markup hasPause)) = Some c
              \<and> 0 \<le> c \<and> c \<le> int m - 1))
    \<and> cs_cardsPerView (cs_onResize e s) = getCardsPerView (innerWidth e)
    \<and> cs_maxIndex (cs_onResize e s)
        = max 0 (int (cs_cards_length s) - getCardsPerView (innerWidth e))
    \<and> cs_currentIndex (cs_onResize e s)
        = min (cs_currentIndex s) (cs_maxIndex (cs_onResize e s))
    \<and> eb_cardsPerView (eb_onResize e b) = getCardsPerView (innerWidth e)
    \<and> eb_maxIndex (eb_onResize e b)
        = max 0 (int (eb_cards_length b) - getCardsPerView (innerWidth e))
    \<and> eb_currentIndex (eb_onResize e b)
        = min (eb_currentIndex b) (eb_maxIndex (eb_onResize e b))"
proof -
  let ?c0 = "cs_new e0 track n dots pb nb"
  let ?b0 = "eb_init e2 (eb_new e1 btrack k bpb bnb auto)"
  have "cs_inv (cs_run ops ?c0) \<and> cs_cards_length (cs_run ops ?c0) = n"
    using cs_fold_inv [of ?c0 ops] cs_new_inv [of e0 track n dots pb nb] assms
    by (simp add: cs_run_def)
  then have cs: "0 \<le> cs_currentIndex (cs_run ops ?c0)"
    "cs_currentIndex (cs_run ops ?c0) \<le> cs_maxIndex (cs_run ops ?c0)"
    "cs_maxIndex (cs_run ops ?c0) = max 0 (int n - cs_cardsPerView (cs_run ops ?c0))"
    by (auto simp add: cs_inv_def)
  have b0: "eb_inv ?b0 \<and> eb_cards_length ?b0 = k"
    using eb_init_inv [of "eb_new e1 btrack k bpb bnb auto" e2]
      eb_new_inv [of e1 btrack k bpb bnb auto]
    by simp
  have "eb_inv (eb_run bops ?b0) \<and> eb_cards_length (eb_run bops ?b0) = k"
    using eb_fold_inv [of ?b0 bops] b0 by (simp add: eb_run_def)
  then have eb: "0 \<le> eb_currentIndex (eb_run bops ?b0)"
    "eb_currentIndex (eb_run bops ?b0) \<le> eb_maxIndex (eb_run bops ?b0)"
    "eb_maxIndex (eb_run bops ?b0) = max 0 (int k - eb_cardsPerView (eb_run bops ?b0))"
    by (auto simp add: eb_inv_def)
  have hero: "0 < m \<longrightarrow>
         (\<exists>c. currentSlide (hero_run hops (hero_new htrack m markup hasPause)) = Some c
              \<and> 0 \<le> c \<and> c \<le> int m - 1)"
  proof
    assume m: "0 < m"
    let ?h0 = "hero_new htrack m markup hasPause"
    have "hero_inv (hero_run hops ?h0) \<and> slides_length (hero_run hops ?h0) = m"
      using hero_fold_inv [of ?h0 hops] hero_new_inv [OF m, of htrack markup hasPause] m
      by (simp add: hero_run_def)
    then show "\<exists>c. currentSlide (hero_run hops ?h0) = Some c \<and> 0 \<le> c \<and> c \<le> int m - 1"
      by (auto simp: hero_inv_def split: option.splits)
  qed
  have rs: "cs_cardsPerView (cs_onResize e s) = getCardsPerView (innerWidth e)"
    "cs_maxIndex (cs_onResize e s)
        = max 0 (int (cs_cards_length s) - getCardsPerView (innerWidth e))"
    "cs_currentIndex (cs_onResize e s)
        = min (cs_currentIndex s) (cs_maxIndex (cs_onResize e s))"
    by (simp_all add: cs_onResize_def Let_def)
  have rb: "eb_cardsPerView (eb_onResize e b) = getCardsPerView (innerWidth e)"
    "eb_maxIndex (eb_onResize e b)
        = max 0 (int (eb_cards_length b) - getCardsPerView (innerWidth e))"
    "eb_currentIndex (eb_onResize e b)
        = min (eb_currentIndex b) (eb_maxIndex (eb_onResize e b))"
    by (simp_all add: eb_onResize_def Let_def)
  from cs eb hero rs rb show ?thesis by blast
qed

text \<open>
  A run of the choose-school slider with a dot call beyond the range and a resize, a
  pointer drag of the benefits slider, and one step back on the hero slider.
\<close>

theorem index_stays_in_range_witness:
  "list_all cs_dot_call [(demo_env, CsNext), (demo_env, CsGoToIndex 7), (demo_env, CsResize)]
   \<and> cs_currentIndex
        (cs_run [(demo_env, CsNext), (demo_env, CsGoToIndex 7), (demo_env, CsResize)] demo_cs) = 1
   \<and> cs_maxIndex
        (cs_run [(demo_env, CsNext), (demo_env, CsGoToIndex 7), (demo_env, CsResize)] demo_cs) = 1
   \<and> eb_currentIndex (eb_run
        [(demo_env, EbPointerDown 500), (demo_env, EbPointerMove 100), (demo_env, EbPointerUp)]
        demo_eb) = 1
   \<and> (0::nat) < 3
   \<and> currentSlide (hero_run [HeroPrev] demo_hero) = Some 2"
proof -
  have h: "list_all cs_dot_call
      [(demo_env, CsNext), (demo_env, CsGoToIndex 7), (demo_env, CsResize)]"
    by simp
  note inst = index_stays_in_range [OF h, where ?e0.0 = demo_env and track = True and n = 5
      and dots = "[True, False]" and pb = "Some True" and nb = "Some False"
      and bops = "[(demo_env, EbPointerDown 500), (demo_env, EbPointerMove 100),
                   (demo_env, EbPointerUp)]"
      and ?e2.0 = demo_env and ?e1.0 = demo_env and btrack = True and k = 5
      and bpb = "Some True" and bnb = "Some False" and auto = False
      and htrack = True and m = 3 and hops = "[HeroPrev]" and markup = "[True, False, False]" and hasPause = True,
      folded demo_cs_def demo_eb_def demo_hero_def]
  have cs: "cs_currentIndex
        (cs_run [(demo_env, CsNext), (demo_env, CsGoToIndex 7), (demo_env, CsResize)] demo_cs) = 1
      \<and> cs_maxIndex
        (cs_run [(demo_env, CsNext), (demo_env, CsGoToIndex 7), (demo_env, CsResize)] demo_cs) = 1"
    by (simp add: cs_run_def demo_cs_eq cs_goToNext_def cs_goToIndex_def cs_onResize_def
          getCardsPerView_def demo_env_def Let_def)
  have eb: "eb_currentIndex (eb_run
        [(demo_env, EbPointerDown 500), (demo_env, EbPointerMove 100), (demo_env, EbPointerUp)]
        demo_eb) = 1"
    by (simp add: eb_run_def demo_eb_eq onPointerDown_def onPointerMove_def onPointerUp_def
          js_round_div_def or_zero_def demo_env_def Let_def)
  have hero: "currentSlide (hero_run [HeroPrev] demo_hero) = Some 2"
    by (simp add: demo_hero_eq hero_run_def goToPrevSlide_def js_rem_def)
  from inst h cs eb hero show ?thesis by simp
qed

text \<open>
  The claim as first stated allows \<open>goToIndex i\<close> for any integer \<open>i\<close>. \<open>goToIndex\<close>
  only takes the minimum with \<open>maxIndex\<close>, so a negative argument becomes the index.
\<close>

theorem goToIndex_negative_counterexample:
  "cs_currentIndex (cs_run [(demo_env, CsGoToIndex (- 1))]
      (cs_new demo_env True 5 [True, False] (Some True) (Some False))) = - 1"
  by (simp add: demo_cs_eq [unfolded demo_cs_def] cs_run_def cs_goToIndex_def)

subsection \<open>Swipe threshold (claim C3)\<close>

text \<open>
  Claim C3, as amended. \<open>handleSwipe startX endX\<close> with \<open>|startX - endX| \<le> 50\<close> changes
  nothing. With a displacement above 50 it makes exactly one call: \<open>next\<close> for a leftward
  swipe (\<open>startX > endX\<close>), \<open>prev\<close> for a rightward one. In the two card sliders that
  call moves the index by one unless the index is already at the bound in that
  direction, where it stays; in the hero slider it moves the index by one modulo the
  number of slides.
\<close>

theorem handleSwipe_threshold:
  "(\<bar>startX - endX\<bar> \<le> 50 \<longrightarrow>
      cs_handleSwipe e startX endX s = s \<and> eb_handleSwipe e startX endX b = b
      \<and> hero_handleSwipe startX endX h = h)
   \<and> (50 < startX - endX \<longrightarrow>
      cs_handleSwipe e startX endX s = cs_goToNext e s
      \<and> eb_handleSwipe e startX endX b = eb_goToNext e b
      \<and> hero_handleSwipe startX endX h = goToNextSlide h
      \<and> cs_currentIndex (cs_handleSwipe e startX endX s)
          = (if cs_currentIndex s < cs_maxIndex s then cs_currentIndex s + 1
             else cs_currentIndex s)
      \<and> eb_currentIndex (eb_handleSwipe e startX endX b)
          = (if eb_currentIndex b < eb_maxIndex b then eb_currentIndex b + 1
             else eb_currentIndex b))
   \<and> (startX - endX < - 50 \<longrightarrow>
      cs_handleSwipe e startX endX s = cs_goToPrev e s
      \<and> eb_handleSwipe e startX endX b = eb_goToPrev e b
      \<and> hero_handleSwipe startX endX h = goToPrevSlide h
      \<and> cs_currentIndex (cs_handleSwipe e startX endX s)
          = (if 0 < cs_currentIndex s then cs_currentIndex s - 1 else cs_currentIndex s)
      \<and> eb_currentIndex (eb_handleSwipe e startX endX b)
          = (if 0 < eb_currentIndex b then eb_currentIndex b - 1 else eb_currentIndex b))
   \<and> (50 < startX - endX \<and> currentSlide h = Some c \<and> 0 \<le> c \<and> c < int (slides_length h) \<longrightarrow>
      currentSlide (hero_handleSwipe startX endX h) = Some ((c + 1) mod int (slides_length h)))
   \<and> (startX - endX < - 50 \<and> currentSlide h = Some c \<and> 0 \<le> c \<and> c < int (slides_length h) \<longrightarrow>
      currentSlide (hero_handleSwipe startX endX h) = Some ((c - 1) mod int (slides_length h)))"
proof -
  note cs = cs_swipe_cases [of startX endX e s]
  note eb = eb_swipe_cases [of startX endX e b]
  note hero = hero_swipe_cases [of startX endX h]
  have small: "\<bar>startX - endX\<bar> \<le> 50 \<longrightarrow>
      cs_handleSwipe e startX endX s = s \<and> eb_handleSwipe e startX endX b = b
      \<and> hero_handleSwipe startX endX h = h"
    using cs eb hero by blast
  have left: "50 < startX - endX \<longrightarrow>
      cs_handleSwipe e startX endX s = cs_goToNext e s
      \<and> eb_handleSwipe e startX endX b = eb_goToNext e b
      \<and> hero_handleSwipe startX endX h = goToNextSlide h
      \<and> cs_currentIndex (cs_handleSwipe e startX endX s)
          = (if cs_currentIndex s < cs_maxIndex s then cs_currentIndex s + 1
             else cs_currentIndex s)
      \<and> eb_currentIndex (eb_handleSwipe e startX endX b)
          = (if eb_currentIndex b < eb_maxIndex b then eb_currentIndex b + 1
             else eb_currentIndex b)"
    using cs eb hero cs_step_index(1) [of e s] eb_step_index(1) [of e b] by simp
  have right: "startX - endX < - 50 \<longrightarrow>
      cs_handleSwipe e startX endX s = cs_goToPrev e s
      \<and> eb_handleSwipe e startX endX b = eb_goToPrev e b
      \<and> hero_handleSwipe startX endX h = goToPrevSlide h
      \<and> cs_currentIndex (cs_handleSwipe e startX endX s)
          = (if 0 < cs_currentIndex s then cs_currentIndex s - 1 else cs_currentIndex s)
      \<and> eb_currentIndex (eb_handleSwipe e startX endX b)
          = (if 0 < eb_currentIndex b then eb_currentIndex b - 1 else eb_currentIndex b)"
    using cs eb hero cs_step_index(2) [of e s] eb_step_index(2) [of e b] by simp
  have hl: "50 < startX - endX \<and> currentSlide h = Some c \<and> 0 \<le> c \<and> c < int (slides_length h) \<longrightarrow>
      currentSlide (hero_handleSwipe startX endX h) = Some ((c + 1) mod int (slides_length h))"
    using hero hero_step_index(1) [of h c] by simp
  have hr: "startX - endX < - 50 \<and> currentSlide h = Some c \<and> 0 \<le> c \<and> c < int (slides_length h) \<longrightarrow>
      currentSlide (hero_handleSwipe startX endX h) = Some ((c - 1) mod int (slides_length h))"
    using hero hero_step_index(2) [of h c] by simp
  from small left right hl hr show ?thesis by blast
qed

text \<open>
  Swipes of 50px (nothing happens), of 51px to the left, and of 51px to the right, on
  the sample sliders.
\<close>

theorem handleSwipe_threshold_witness:
  "\<bar>(120::int) - 70\<bar> \<le> 50
   \<and> cs_handleSwipe demo_env 120 70 demo_cs = demo_cs
   \<and> eb_handleSwipe demo_env 120 70 demo_eb = demo_eb
   \<and> hero_handleSwipe 120 70 demo_hero = demo_hero
   \<and> (50::int) < 121 - 70
   \<and> cs_currentIndex (cs_handleSwipe demo_env 121 70 demo_cs) = 1
   \<and> eb_currentIndex (eb_handleSwipe demo_env 121 70 demo_eb) = 1
   \<and> currentSlide (hero_handleSwipe 121 70 demo_hero) = Some 1
   \<and> (70::int) - 121 < - 50
   \<and> cs_currentIndex (cs_handleSwipe demo_env 70 121 (cs_goToNext demo_env demo_cs)) = 0
   \<and> eb_currentIndex (eb_handleSwipe demo_env 70 121 (eb_goToNext demo_env demo_eb)) = 0
   \<and> currentSlide (hero_handleSwipe 70 121 demo_hero) = Some 2"
  using handleSwipe_threshold [where startX = 120 and endX = 70 and e = demo_env
      and s = demo_cs and b = demo_eb and h = demo_hero and c = 0]
    handleSwipe_threshold [where startX = 121 and endX = 70 and e = demo_env
      and s = demo_cs and b = demo_eb and h = demo_hero and c = 0]
    handleSwipe_threshold [where startX = 70 and endX = 121 and e = demo_env
      and s = "cs_goToNext demo_env demo_cs" and b = "eb_goToNext demo_env demo_eb"
      and h = demo_hero and c = 0]
  by (simp add: demo_cs_next demo_eb_next)
     (simp add: demo_cs_eq demo_eb_eq demo_hero_eq cs_goToNext_def cs_goToPrev_def
        eb_goToNext_def eb_goToPrev_def goToNextSlide_def goToPrevSlide_def js_rem_def)

text \<open>
  The claim as first stated, that a swipe of more than 50px always changes the index by
  one, fails at the bound: a 100px leftward swipe on the choose-school slider at its last
  position leaves the index where it is.
\<close>

theorem swipe_at_bound_counterexample:
  "\<bar>(200::int) - 100\<bar> > 50
   \<and> cs_currentIndex (cs_handleSwipe demo_env 200 100 (cs_goToNext demo_env demo_cs))
     = cs_currentIndex (cs_goToNext demo_env demo_cs)"
  by (simp add: demo_cs_next) (simp add: cs_handleSwipe_def cs_goToNext_def)

subsection \<open>A remark on touch gestures of the benefits slider\<close>

text \<open>
  The benefits slider attaches two listeners to \<open>touchend\<close>: the swipe listener and
  the end of the pointer drag. The second one snaps the index to the position of the
  finger's drag, whatever the first one did. From index 0, a leftward swipe of 100px
  first advances to index 1; the drag release then rounds 100 / 324 down and puts the
  index back to 0.
\<close>

lemma eb_touch_swipe_snaps_back:
  "eb_currentIndex demo_eb = 0
   \<and> eb_currentIndex (eb_run [(demo_env, EbPointerDown 300), (demo_env, EbPointerMove 200),
        (demo_env, EbSwipe 300 200)] demo_eb) = 1
   \<and> eb_currentIndex (eb_run [(demo_env, EbPointerDown 300), (demo_env, EbPointerMove 200),
        (demo_env, EbSwipe 300 200), (demo_env, EbPointerUp)] demo_eb) = 0"
  by (simp add: eb_run_def demo_eb_eq onPointerDown_def onPointerMove_def onPointerUp_def
        eb_handleSwipe_def eb_goToNext_def eb_updateSlider_def eb_offset_def js_round_div_def or_zero_def demo_env_def Let_def)

section \<open>Properties of the form validator\<close>

subsection \<open>Auxiliary facts\<close>

lemma trim_all_whitespace:
  assumes "list_all isWhiteSpace s"
  shows "trim s = []"
proof -
  from assms have e: "dropWhile isWhiteSpace s = []"
    by (simp add: dropWhile_eq_Nil_conv list_all_iff)
  show ?thesis unfolding trim_def e by simp
qed

lemma isDigit_not_whitespace: "isDigit c \<Longrightarrow> \<not> isWhiteSpace c"
  unfolding isDigit_def isWhiteSpace_def
  by (auto simp: word_le_nat_alt)

lemma dropWhile_hd_keep: "s \<noteq> [] \<Longrightarrow> \<not> P (hd s) \<Longrightarrow> dropWhile P s = s"
  by (cases s) simp_all

lemma trim_digits: "list_all isDigit s \<Longrightarrow> trim s = s"
proof (cases "s = []")
  case True
  then show ?thesis by (simp add: trim_def)
next
  case False
  assume d: "list_all isDigit s"
  from False d have h: "\<not> isWhiteSpace (hd s)"
    by (cases s) (simp_all add: isDigit_not_whitespace)
  from False d have l: "\<not> isWhiteSpace (hd (rev s))"
    by (simp add: hd_rev list_all_iff isDigit_not_whitespace)
  from False h have "dropWhile isWhiteSpace s = s" by (rule dropWhile_hd_keep)
  moreover from False l have "dropWhile isWhiteSpace (rev s) = rev s"
    by (intro dropWhile_hd_keep) simp_all
  ultimately show ?thesis by (simp add: trim_def)
qed

lemma validateField_fst: "fst (validateField f es) = fst (checkField f)"
  by (simp add: validateField_def case_prod_unfold)

lemma clearError_field:
  "fst (clearError f es)
     = f\<lparr>aria_invalid := False, aria_describedby := None, error_class := False\<rparr>"
  by (simp add: clearError_def)

lemma showError_field:
  "fst (showError f m es)
     = f\<lparr>aria_invalid := True, error_class := True,
         aria_describedby := Some (f_id f @ ''-error'')\<rparr>"
  by (simp add: showError_def clearError_def Let_def)



lemma showError_store_own:
  "snd (showError f m es) (f_parent f)
     = (case es (f_parent f) of [] \<Rightarrow> [] | x # r \<Rightarrow> r) @ [\<lparr>e_id = f_id f @ ''-error'', e_text = m\<rparr>]"
  by (simp add: showError_def clearError_def Let_def)

lemma validateField_field:
  "fst (snd (validateField f es))
     = (if fst (checkField f)
        then f\<lparr>aria_invalid := False, aria_describedby := None, error_class := False\<rparr>
        else f\<lparr>aria_invalid := True, error_class := True,
               aria_describedby := Some (f_id f @ ''-error'')\<rparr>)"
  by (simp add: validateField_def clearError_field showError_field case_prod_unfold)


lemma validateField_store_own:
  "\<not> fst (checkField f) \<Longrightarrow>
   snd (snd (validateField f es)) (f_parent f)
     = (case es (f_parent f) of [] \<Rightarrow> [] | x # r \<Rightarrow> r)
       @ [\<lparr>e_id = f_id f @ ''-error'', e_text = snd (checkField f)\<rparr>]"
  by (simp add: validateField_def showError_store_own case_prod_unfold)










lemma demo_field_sel:
  "f_required (demo_field i t r v p) = r" "f_parent (demo_field i t r v p) = p"
  "f_id (demo_field i t r v p) = i" "f_name (demo_field i t r v p) = i"
  "f_value (demo_field i t r v p) = v" "f_defaultValue (demo_field i t r v p) = []"
  by (simp_all add: demo_field_def)

lemma checkField_tel:
  assumes "f_type f = ''tel''" and "trim (f_value f) \<noteq> []"
  shows "checkField f =
    (if phoneRegex_test (trim (f_value f)) then (True, [])
     else (False, ''Please enter a valid 10-digit phone number''))"
  using assms by (simp add: checkField_def Let_def)

lemma checkField_blank:
  assumes "f_required f" and "trim (f_value f) = []"
  shows "checkField f = (False, ''This field is required'')"
  using assms by (simp add: checkField_def Let_def)

lemma validateField_fails:
  assumes "checkField f = (False, m)"
  shows "\<not> fst (validateField f es)"
    and "marked_invalid (fst (snd (validateField f es)))"
    and "last (snd (snd (validateField f es)) (f_parent f))
           = \<lparr>e_id = f_id f @ ''-error'', e_text = m\<rparr>"
  using assms validateField_store_own [of f es]
  by (simp_all add: validateField_fst validateField_field marked_invalid_def)

lemma validateField_passes:
  assumes "checkField f = (True, m)"
  shows "fst (validateField f es)"
    and "\<not> aria_invalid (fst (snd (validateField f es)))"
    and "\<not> error_class (fst (snd (validateField f es)))"
  using assms by (simp_all add: validateField_fst validateField_field)

lemma demo_tel:
  "f_type (demo_field i ''tel'' r v p) = ''tel''"
  by (simp add: demo_field_def)

lemma demo_trims:
  "trim (js ''987654321'') = js ''987654321''"
  "trim (js ''98765432101'') = js ''98765432101''"
  "trim (js ''9876543210'') = js ''9876543210''"
  "trim (js '' 9876543210'') = js ''9876543210''"
  by (simp_all add: js_def trim_def isWhiteSpace_def)

lemma demo_digits:
  "list_all isDigit (js ''987654321'')"
  "list_all isDigit (js ''98765432101'')"
  "list_all isDigit (js ''9876543210'')"
  "js ''987654321'' \<noteq> []" "js ''98765432101'' \<noteq> []" "js ''9876543210'' \<noteq> []"
  "length (js ''987654321'') = 9" "length (js ''98765432101'') = 11"
  "length (js ''9876543210'') = 10"
  by (simp_all add: js_def isDigit_def)

subsection \<open>Submitting the form (claim C4)\<close>



subsection \<open>Phone fields (claim C5)\<close>

text \<open>
  Claim C5, as amended. For a field of type \<open>tel\<close> whose value is not empty once
  trimmed, validation fails, marks the field invalid and shows the phone message if
  and only if the trimmed value is not exactly ten decimal digits. In particular a
  value of nine or eleven digits gives an error and a value of exactly ten digits gives
  none.
\<close>

theorem phone_field_validation:
  assumes "f_type f = ''tel''" and "trim (f_value f) \<noteq> []"
  shows "(\<not> fst (validateField f es) \<longleftrightarrow> \<not> phoneRegex_test (trim (f_value f)))
    \<and> (\<not> phoneRegex_test (trim (f_value f)) \<longrightarrow>
         marked_invalid (fst (snd (validateField f es)))
         \<and> last (snd (snd (validateField f es)) (f_parent f))
             = \<lparr>e_id = f_id f @ ''-error'',
                e_text = ''Please enter a valid 10-digit phone number''\<rparr>)
    \<and> (phoneRegex_test (trim (f_value f)) \<longrightarrow>
         \<not> aria_invalid (fst (snd (validateField f es)))
         \<and> \<not> error_class (fst (snd (validateField f es))))
    \<and> (list_all isDigit (f_value f) \<longrightarrow>
         trim (f_value f) = f_value f
         \<and> (fst (validateField f es) \<longleftrightarrow> length (f_value f) = 10))"
proof (cases "phoneRegex_test (trim (f_value f))")
  case True
  with checkField_tel [OF assms] have c: "checkField f = (True, [])" by simp
  from True have "length (trim (f_value f)) = 10" by (simp add: phoneRegex_test_def)
  with True validateField_passes [OF c, of es] trim_digits [of "f_value f"]
  show ?thesis by auto
next
  case False
  with checkField_tel [OF assms]
  have c: "checkField f = (False, ''Please enter a valid 10-digit phone number'')" by simp
  have "list_all isDigit (f_value f) \<longrightarrow> length (f_value f) \<noteq> 10"
    using False trim_digits [of "f_value f"] by (auto simp: phoneRegex_test_def)
  with False validateField_fails [OF c, of es] trim_digits [of "f_value f"]
  show ?thesis by auto
qed

text \<open>Nine digits and eleven digits fail, ten digits pass.\<close>

theorem phone_field_validation_witness:
  "f_type (demo_field ''phone'' ''tel'' False (js ''987654321'') 2) = ''tel''
   \<and> trim (f_value (demo_field ''phone'' ''tel'' False (js ''987654321'') 2)) \<noteq> []
   \<and> list_all isDigit (f_value (demo_field ''phone'' ''tel'' False (js ''987654321'') 2))
   \<and> \<not> fst (validateField (demo_field ''phone'' ''tel'' False (js ''987654321'') 2) no_errors)
   \<and> list_all isDigit (f_value (demo_field ''phone'' ''tel'' False (js ''98765432101'') 2))
   \<and> \<not> fst (validateField (demo_field ''phone'' ''tel'' False (js ''98765432101'') 2) no_errors)
   \<and> last (snd (snd (validateField (demo_field ''phone'' ''tel'' False (js ''98765432101'') 2)
          no_errors)) 2)
       = \<lparr>e_id = ''phone-error'', e_text = ''Please enter a valid 10-digit phone number''\<rparr>
   \<and> list_all isDigit (f_value (demo_field ''phone'' ''tel'' False (js ''9876543210'') 2))
   \<and> phoneRegex_test (trim (f_value (demo_field ''phone'' ''tel'' False (js ''9876543210'') 2)))
   \<and> fst (validateField (demo_field ''phone'' ''tel'' False (js ''9876543210'') 2) no_errors)
   \<and> \<not> aria_invalid (fst (snd (validateField
          (demo_field ''phone'' ''tel'' False (js ''9876543210'') 2) no_errors)))"
  using phone_field_validation [of "demo_field ''phone'' ''tel'' False (js ''987654321'') 2" no_errors]
    phone_field_validation [of "demo_field ''phone'' ''tel'' False (js ''98765432101'') 2" no_errors]
    phone_field_validation [of "demo_field ''phone'' ''tel'' False (js ''9876543210'') 2" no_errors]
  by (simp add: demo_tel demo_field_sel demo_trims demo_digits phoneRegex_test_def no_errors_def)

text \<open>
  The claim as first stated speaks of the value of the field. The value made of a space
  and ten digits is not empty and is not ten digits, and yet validation passes: the
  pattern is tested on the trimmed value.
\<close>

theorem phone_field_untrimmed_counterexample:
  "f_type (demo_field ''phone'' ''tel'' False (js '' 9876543210'') 2) = ''tel''
   \<and> f_value (demo_field ''phone'' ''tel'' False (js '' 9876543210'') 2) \<noteq> []
   \<and> \<not> phoneRegex_test (f_value (demo_field ''phone'' ''tel'' False (js '' 9876543210'') 2))
   \<and> fst (validateField (demo_field ''phone'' ''tel'' False (js '' 9876543210'') 2) no_errors)"
  by (simp add: validateField_fst checkField_def demo_tel demo_field_sel demo_trims Let_def)
     (simp add: js_def phoneRegex_test_def isDigit_def)

subsection \<open>Blank required fields (claim C10)\<close>

text \<open>
  Claim C10. A required field whose value consists of white space only is trimmed to
  the empty string, so validation fails, the field is marked invalid and the message
  \<open>This field is required\<close> is shown.
\<close>

theorem whitespace_only_required_field:
  assumes "f_required f" and "list_all isWhiteSpace (f_value f)"
  shows "trim (f_value f) = []
    \<and> \<not> fst (validateField f es)
    \<and> marked_invalid (fst (snd (validateField f es)))
    \<and> last (snd (snd (validateField f es)) (f_parent f))
        = \<lparr>e_id = f_id f @ ''-error'', e_text = ''This field is required''\<rparr>"
proof -
  from assms(2) have t: "trim (f_value f) = []" by (rule trim_all_whitespace)
  from checkField_blank [OF assms(1) t] validateField_fails [of f "''This field is required''" es] t
  show ?thesis by simp
qed

text \<open>A required name field holding a space, a tab, a no-break space and a space.\<close>

theorem whitespace_only_required_field_witness:
  "f_required (demo_field ''name'' ''text'' True [0x20, 0x9, 0xA0, 0x20] 1)
   \<and> list_all isWhiteSpace (f_value (demo_field ''name'' ''text'' True [0x20, 0x9, 0xA0, 0x20] 1))
   \<and> f_value (demo_field ''name'' ''text'' True [0x20, 0x9, 0xA0, 0x20] 1) \<noteq> []
   \<and> \<not> fst (validateField (demo_field ''name'' ''text'' True [0x20, 0x9, 0xA0, 0x20] 1) no_errors)
   \<and> last (snd (snd (validateField (demo_field ''name'' ''text'' True [0x20, 0x9, 0xA0, 0x20] 1)
          no_errors)) 1)
       = \<lparr>e_id = ''name-error'', e_text = ''This field is required''\<rparr>"
  using whitespace_only_required_field
      [of "demo_field ''name'' ''text'' True [0x20, 0x9, 0xA0, 0x20] 1" no_errors]
  by (simp add: demo_field_sel isWhiteSpace_def no_errors_def)

section \<open>Properties of the visibility trigger\<close>

subsection \<open>Auxiliary facts\<close>

lemma eb_init_idem: "eb_init e (eb_init e b) = eb_init e b"
  by (simp add: eb_init_def)

lemma animate_in_other: "''exhibition-benefits'' \<in> set (classList_add ''animate-in'' cs)
    \<longleftrightarrow> ''exhibition-benefits'' \<in> set cs"
  by (simp add: classList_add_def)

lemma classList_add_mono: "c \<in> set cs \<Longrightarrow> c \<in> set (classList_add d cs)"
  by (simp add: classList_add_def)

lemma classList_add_mem: "c \<in> set (classList_add c cs)"
  by (simp add: classList_add_def)

lemma on_entry_False [simp]: "on_entry e (t, False) p = p"
  by (simp add: on_entry_def)

lemma on_entry_True:
  "classList (on_entry e (t, True) p)
     = (classList p)(t := classList_add ''animate-in'' (classList p t))"
  "revealed (on_entry e (t, True) p) = revealed p @ [t]"
  "observer (on_entry e (t, True) p) = map_option (unobserve t) (observer p)"
  "benefitsSlider (on_entry e (t, True) p)
     = (if ''exhibition-benefits'' \<in> set (classList p t)
        then map_option (eb_init e) (benefitsSlider p) else benefitsSlider p)"
  by (auto simp add: on_entry_def Let_def animate_in_other)

lemma queued_entries_fst:
  "map fst (queued_entries changes ts) = filter (\<lambda>t. changes t \<noteq> None) ts"
  by (induction ts) (auto simp add: queued_entries_def List.map_filter_simps split: option.splits)

lemma queued_entries_mem:
  "(t, b) \<in> set (queued_entries changes ts) \<longleftrightarrow> t \<in> set ts \<and> changes t = Some b"
  by (induction ts) (auto simp add: queued_entries_def List.map_filter_simps split: option.splits)

lemma fold_on_entry_inv:
  assumes "observer p = Some ob" and "distinct (targets ob)" and "distinct (revealed p)"
    and "set (revealed p) \<inter> set (targets ob) = {}"
    and "distinct (map fst es)" and "set (map fst es) \<subseteq> set (targets ob)"
  shows "reveal_inv (fold (on_entry e) es p)"
  using assms
proof (induction es arbitrary: p ob)
  case Nil
  then show ?case by (simp add: reveal_inv_def)
next
  case (Cons en es)
  obtain t b where en: "en = (t, b)" by (cases en)
  show ?case
  proof (cases b)
    case False
    with en Cons.prems Cons.IH [of p ob] show ?thesis by simp
  next
    case True
    let ?p = "on_entry e (t, True) p"
    let ?ob = "unobserve t ob"
    from Cons.prems(1) have o: "observer ?p = Some ?ob" by (simp add: on_entry_True)
    from Cons.prems en have t: "t \<in> set (targets ob)" "t \<notin> set (map fst es)" by auto
    with Cons.prems(4) have tr: "t \<notin> set (revealed p)" by auto
    have d: "distinct (targets ?ob)"
      using Cons.prems(2) by (simp add: unobserve_def distinct_removeAll)
    have r: "distinct (revealed ?p)" using Cons.prems(3) tr by (simp add: on_entry_True)
    have i: "set (revealed ?p) \<inter> set (targets ?ob) = {}"
      using Cons.prems(4) by (auto simp add: on_entry_True unobserve_def)
    have e1: "distinct (map fst es)" using Cons.prems(5) by simp
    have e2: "set (map fst es) \<subseteq> set (targets ?ob)"
      using Cons.prems(6) t(2) by (auto simp add: unobserve_def)
    from Cons.IH [OF o d r i e1 e2] en True show ?thesis by simp
  qed
qed

lemma notify_inv: "reveal_inv p \<Longrightarrow> reveal_inv (notify e changes p)"
proof (cases "observer p")
  case None
  assume "reveal_inv p"
  with None show ?thesis by (simp add: notify_def)
next
  case (Some ob)
  assume "reveal_inv p"
  with Some have a: "distinct (targets ob)" "distinct (revealed p)"
    "set (revealed p) \<inter> set (targets ob) = {}"
    by (simp_all add: reveal_inv_def)
  have b: "distinct (map fst (queued_entries changes (targets ob)))"
    "set (map fst (queued_entries changes (targets ob))) \<subseteq> set (targets ob)"
    using a(1) by (simp_all add: queued_entries_fst)
  from fold_on_entry_inv [OF Some a b] Some show ?thesis
    by (simp add: notify_def observer_callback_def)
qed

lemma page_step_inv: "reveal_inv p \<Longrightarrow> reveal_inv (page_step ev p)"
proof (cases ev)
  case (Pair e x)
  assume i: "reveal_inv p"
  show ?thesis
  proof (cases x)
    case (Notify changes)
    with Pair i show ?thesis by (simp add: notify_inv)
  next
    case (Benefits op)
    with Pair i show ?thesis by (simp add: reveal_inv_def split: option.splits)
  qed
qed

lemma page_run_inv: "reveal_inv p \<Longrightarrow> reveal_inv (page_run evs p)"
  unfolding page_run_def
  by (induction evs arbitrary: p) (simp_all add: page_step_inv)

lemma fold_observe:
  "distinct (targets ob) \<Longrightarrow>
   distinct (targets (fold observe ts ob))
   \<and> set (targets (fold observe ts ob)) = set (targets ob) \<union> set ts
   \<and> threshold (fold observe ts ob) = threshold ob
   \<and> rootMargin (fold observe ts ob) = rootMargin ob"
proof (induction ts arbitrary: ob)
  case Nil
  then show ?case by simp
next
  case (Cons t ts)
  from Cons.prems have "distinct (targets (observe t ob))" by (simp add: observe_def)
  from Cons.IH [OF this] show ?case by (auto simp add: observe_def)
qed

lemma init_page_inv: "reveal_inv (init_page e doc cls container)"
  using fold_observe [of "\<lparr>threshold = 1 / 10, rootMargin = ''0px 0px -50px 0px'', targets = []\<rparr>"]
  by (simp add: init_page_def initScrollAnimations_def reveal_inv_def)

lemma distinct_count_le_1: "distinct xs \<Longrightarrow> count_list xs x \<le> 1"
  by (induction xs) (auto simp add: count_list_0_iff)

lemma count_one: "distinct xs \<Longrightarrow> x \<in> set xs \<Longrightarrow> count_list xs x = 1"
  by (induction xs) (auto simp add: count_list_0_iff)

lemma on_entry_mono:
  "c \<in> set (classList p x) \<Longrightarrow> c \<in> set (classList (on_entry e en p) x)"
  "x \<in> set (revealed p) \<Longrightarrow> x \<in> set (revealed (on_entry e en p))"
  "(''exhibition-benefits'' \<in> set (classList (on_entry e en p) x))
     = (''exhibition-benefits'' \<in> set (classList p x))"
proof -
  obtain t b where en: "en = (t, b)" by (cases en)
  show "c \<in> set (classList p x) \<Longrightarrow> c \<in> set (classList (on_entry e en p) x)"
    unfolding en by (cases b) (auto simp add: on_entry_True classList_add_mono)
  show "x \<in> set (revealed p) \<Longrightarrow> x \<in> set (revealed (on_entry e en p))"
    unfolding en by (cases b) (simp_all add: on_entry_True)
  show "(''exhibition-benefits'' \<in> set (classList (on_entry e en p) x))
     = (''exhibition-benefits'' \<in> set (classList p x))"
    unfolding en by (cases b) (simp_all add: on_entry_True animate_in_other)
qed

lemma fold_on_entry_mono:
  "c \<in> set (classList p x) \<Longrightarrow> c \<in> set (classList (fold (on_entry e) es p) x)"
  "y \<in> set (revealed p) \<Longrightarrow> y \<in> set (revealed (fold (on_entry e) es p))"
  by (induction es arbitrary: p) (simp_all add: on_entry_mono)

lemma fold_on_entry_hit:
  "(t, True) \<in> set es \<Longrightarrow>
   ''animate-in'' \<in> set (classList (fold (on_entry e) es p) t)
   \<and> t \<in> set (revealed (fold (on_entry e) es p))"
proof (induction es arbitrary: p)
  case Nil
  then show ?case by simp
next
  case (Cons en es)
  show ?case
  proof (cases "en = (t, True)")
    case True
    have "''animate-in'' \<in> set (classList (on_entry e (t, True) p) t)"
      "t \<in> set (revealed (on_entry e (t, True) p))"
      by (simp_all add: on_entry_True classList_add_mem)
    with True show ?thesis by (simp add: fold_on_entry_mono)
  next
    case False
    with Cons.prems have "(t, True) \<in> set es" by simp
    from Cons.IH [OF this] show ?thesis by simp
  qed
qed

lemma on_entry_slider:
  "benefitsSlider p = None \<Longrightarrow> benefitsSlider (on_entry e en p) = None"
  "benefitsSlider p = Some b \<or> benefitsSlider p = Some (eb_init e b) \<Longrightarrow>
   benefitsSlider (on_entry e en p) = Some b
   \<or> benefitsSlider (on_entry e en p) = Some (eb_init e b)"
proof -
  obtain t i where en: "en = (t, i)" by (cases en)
  show "benefitsSlider p = None \<Longrightarrow> benefitsSlider (on_entry e en p) = None"
    unfolding en by (cases i) (simp_all add: on_entry_True)
  show "benefitsSlider p = Some b \<or> benefitsSlider p = Some (eb_init e b) \<Longrightarrow>
   benefitsSlider (on_entry e en p) = Some b
   \<or> benefitsSlider (on_entry e en p) = Some (eb_init e b)"
    unfolding en by (cases i) (auto simp add: on_entry_True eb_init_idem)
qed

lemma fold_on_entry_slider_None:
  "benefitsSlider p = None \<Longrightarrow> benefitsSlider (fold (on_entry e) es p) = None"
  by (induction es arbitrary: p) (simp_all add: on_entry_slider)

lemma fold_on_entry_slider_keep:
  "benefitsSlider p = Some b \<or> benefitsSlider p = Some (eb_init e b) \<Longrightarrow>
   benefitsSlider (fold (on_entry e) es p) = Some b
   \<or> benefitsSlider (fold (on_entry e) es p) = Some (eb_init e b)"
  by (induction es arbitrary: p) (simp_all add: on_entry_slider)

lemma fold_on_entry_slider_hit:
  assumes "(t, True) \<in> set es" and "''exhibition-benefits'' \<in> set (classList p t)"
    and "benefitsSlider p = Some b \<or> benefitsSlider p = Some (eb_init e b)"
  shows "benefitsSlider (fold (on_entry e) es p) = Some (eb_init e b)"
  using assms
proof (induction es arbitrary: p)
  case Nil
  then show ?case by simp
next
  case (Cons en es)
  show ?case
  proof (cases "en = (t, True)")
    case True
    from Cons.prems(2,3) have "benefitsSlider (on_entry e (t, True) p) = Some (eb_init e b)"
      by (auto simp add: on_entry_True eb_init_idem)
    then have "benefitsSlider (on_entry e (t, True) p) = Some (eb_init e b)
        \<or> benefitsSlider (on_entry e (t, True) p) = Some (eb_init e (eb_init e b))"
      by simp
    from fold_on_entry_slider_keep [OF this, of es] True show ?thesis
      by (simp add: eb_init_idem)
  next
    case False
    with Cons.prems(1) have m: "(t, True) \<in> set es" by simp
    have c: "''exhibition-benefits'' \<in> set (classList (on_entry e en p) t)"
      using Cons.prems(2) by (simp add: on_entry_mono)
    have s: "benefitsSlider (on_entry e en p) = Some b
        \<or> benefitsSlider (on_entry e en p) = Some (eb_init e b)"
      using Cons.prems(3) by (rule on_entry_slider)
    from Cons.IH [OF m c s] show ?thesis by simp
  qed
qed

lemma notify_hit:
  assumes "reveal_inv p" and "observer p = Some ob" and "t \<in> set (targets ob)"
    and "changes t = Some True"
  shows "''animate-in'' \<in> set (classList (notify e changes p) t)"
    and "count_list (revealed (notify e changes p)) t = 1"
    and "\<exists>ob'. observer (notify e changes p) = Some ob' \<and> t \<notin> set (targets ob')"
    and "''exhibition-benefits'' \<in> set (classList p t) \<longrightarrow>
         benefitsSlider (notify e changes p) = map_option (eb_init e) (benefitsSlider p)"
proof -
  let ?es = "queued_entries changes (targets ob)"
  have n: "notify e changes p = fold (on_entry e) ?es p"
    using assms(2) by (simp add: notify_def observer_callback_def)
  have m: "(t, True) \<in> set ?es" using assms(3,4) by (simp add: queued_entries_mem)
  from fold_on_entry_hit [OF m, of e p] n
  have h: "''animate-in'' \<in> set (classList (notify e changes p) t)"
    "t \<in> set (revealed (notify e changes p))" by simp_all
  have i: "reveal_inv (notify e changes p)" using assms(1) by (rule notify_inv)
  show "''animate-in'' \<in> set (classList (notify e changes p) t)" by (rule h(1))
  show "count_list (revealed (notify e changes p)) t = 1"
    using i h(2) by (simp add: reveal_inv_def count_one)
  show "\<exists>ob'. observer (notify e changes p) = Some ob' \<and> t \<notin> set (targets ob')"
  proof (cases "observer (notify e changes p)")
    case None
    with i h(2) show ?thesis by (simp add: reveal_inv_def)
  next
    case (Some ob')
    with i h(2) show ?thesis by (auto simp add: reveal_inv_def)
  qed
  show "''exhibition-benefits'' \<in> set (classList p t) \<longrightarrow>
         benefitsSlider (notify e changes p) = map_option (eb_init e) (benefitsSlider p)"
  proof
    assume c: "''exhibition-benefits'' \<in> set (classList p t)"
    show "benefitsSlider (notify e changes p) = map_option (eb_init e) (benefitsSlider p)"
    proof (cases "benefitsSlider p")
      case None
      with fold_on_entry_slider_None [of p e ?es] n show ?thesis by simp
    next
      case (Some b)
      then have "benefitsSlider p = Some b \<or> benefitsSlider p = Some (eb_init e b)" by simp
      from fold_on_entry_slider_hit [OF m c this] n Some show ?thesis by simp
    qed
  qed
qed

lemma page_step_revealed_mono:
  "x \<in> set (revealed p) \<Longrightarrow> x \<in> set (revealed (page_step ev p))"
proof (cases ev)
  case (Pair e a)
  assume x: "x \<in> set (revealed p)"
  show ?thesis
  proof (cases a)
    case (Notify changes)
    with Pair x show ?thesis
      by (cases "observer p") (simp_all add: notify_def observer_callback_def fold_on_entry_mono)
  next
    case (Benefits op)
    with Pair x show ?thesis by simp
  qed
qed

lemma page_run_revealed_mono:
  "x \<in> set (revealed p) \<Longrightarrow> x \<in> set (revealed (page_run evs p))"
  unfolding page_run_def
  by (induction evs arbitrary: p) (simp_all add: page_step_revealed_mono)

lemma init_page_observer:
  assumes "\<not> prefersReducedMotion e0"
  shows "\<exists>ob. observer (init_page e0 doc cls container) = Some ob
      \<and> threshold ob = 1 / 10 \<and> rootMargin ob = ''0px 0px -50px 0px''
      \<and> set (targets ob) = {el \<in> set doc. \<exists>c\<in>set tracked_classes. c \<in> set (cls el)}"
  using assms
    fold_observe [of "\<lparr>threshold = 1 / 10, rootMargin = ''0px 0px -50px 0px'', targets = []\<rparr>"]
  by (auto simp add: init_page_def initScrollAnimations_def tracked_sections_def list_ex_iff)

lemma eb_init_activated:
  "eb_activated (eb_init e b) = (eb_activated b \<or> (eb_track b \<and> 0 < eb_cards_length b))"
  by (auto simp add: eb_init_def)

lemma demo_page_observer:
  "observer (demo_page demo_env)
     = Some \<lparr>threshold = 1 / 10, rootMargin = ''0px 0px -50px 0px'', targets = [1, 2, 3, 4, 5]\<rparr>"
  by (simp add: demo_page_def init_page_def initScrollAnimations_def tracked_sections_def
        tracked_classes_def demo_classes_def observe_def demo_env_def)

lemma demo_page_fields:
  "classList (demo_page demo_env) = demo_classes"
  "benefitsSlider (demo_page demo_env)
     = Some (eb_new demo_env True 5 (Some True) (Some False) False)"
  "\<not> prefersReducedMotion demo_env"
  by (simp_all add: demo_page_def init_page_def initScrollAnimations_def demo_env_def)

lemma eb_new_lazy: "\<not> eb_activated (eb_new e track n pb nb False)"
  by (simp add: eb_new_def)

lemma eb_run_inactive: "\<not> eb_activated s \<Longrightarrow> eb_run ops s = s"
  by (simp add: eb_run_def)

lemma page_step_dormant:
  assumes "dormant cls bs p" and "\<forall>b. bs = Some b \<longrightarrow> \<not> eb_activated b"
  shows "dormant cls bs (page_step ev p)"
proof (cases ev)
  case (Pair e x)
  show ?thesis
  proof (cases x)
    case (Notify changes)
    with Pair assms(1) show ?thesis by (simp add: dormant_def notify_def)
  next
    case (Benefits op)
    with Pair assms show ?thesis
      by (cases bs) (simp_all add: dormant_def eb_run_inactive)
  qed
qed

lemma page_run_dormant:
  assumes "\<forall>b. bs = Some b \<longrightarrow> \<not> eb_activated b"
  shows "dormant cls bs p \<Longrightarrow> dormant cls bs (page_run evs p)"
  unfolding page_run_def
  by (induction evs arbitrary: p) (simp_all add: page_step_dormant [OF _ assms])

subsection \<open>One reveal per section (claim C6)\<close>

text \<open>
  Claim C6. Unless reduced motion is preferred, \<open>initScrollAnimations\<close> observes the
  tracked sections with threshold 0.1 and root margin \<open>0px 0px -50px 0px\<close>. In every
  run of the page the reveal class is added to a section at most once. When the browser
  reports an observed section as intersecting, the callback adds the class, the section
  is no longer observed, the class has been added exactly once and stays so whatever
  happens later; and if the section carries the class \<open>exhibition-benefits\<close>, \<open>init\<close> of
  the lazily created benefits slider is called at that moment, which activates it when
  it has a track and a card. An entry that is not intersecting changes nothing.
\<close>

theorem reveal_once:
  "count_list (revealed (page_run evs (init_page e0 doc cls container))) t \<le> 1
   \<and> (\<not> prefersReducedMotion e0 \<longrightarrow>
        (\<exists>ob. observer (init_page e0 doc cls container) = Some ob
           \<and> threshold ob = 1 / 10 \<and> rootMargin ob = ''0px 0px -50px 0px''
           \<and> set (targets ob) = {el \<in> set doc. \<exists>c\<in>set tracked_classes. c \<in> set (cls el)}))
   \<and> (observer (page_run evs (init_page e0 doc cls container)) = Some ob
        \<and> t \<in> set (targets ob) \<and> changes t = Some True \<longrightarrow>
        ''animate-in'' \<in> set (classList
            (notify e changes (page_run evs (init_page e0 doc cls container))) t)
        \<and> count_list (revealed
            (notify e changes (page_run evs (init_page e0 doc cls container)))) t = 1
        \<and> (\<exists>ob'. observer (notify e changes (page_run evs (init_page e0 doc cls container)))
                    = Some ob'
                \<and> t \<notin> set (targets ob'))
        \<and> (''exhibition-benefits''
              \<in> set (classList (page_run evs (init_page e0 doc cls container)) t) \<longrightarrow>
            benefitsSlider (notify e changes (page_run evs (init_page e0 doc cls container)))
              = map_option (eb_init e)
                  (benefitsSlider (page_run evs (init_page e0 doc cls container))))
        \<and> count_list (revealed (page_run later
            (notify e changes (page_run evs (init_page e0 doc cls container))))) t = 1)
   \<and> on_entry e (t, False) p = p
   \<and> eb_activated (eb_init e b) = (eb_activated b \<or> (eb_track b \<and> 0 < eb_cards_length b))"
proof -
  let ?P = "page_run evs (init_page e0 doc cls container)"
  have inv: "reveal_inv ?P" by (simp add: page_run_inv init_page_inv)
  then have once: "count_list (revealed ?P) t \<le> 1"
    using distinct_count_le_1 [of "revealed ?P" t] by (simp add: reveal_inv_def)
  have opts: "\<not> prefersReducedMotion e0 \<longrightarrow>
        (\<exists>ob. observer (init_page e0 doc cls container) = Some ob
           \<and> threshold ob = 1 / 10 \<and> rootMargin ob = ''0px 0px -50px 0px''
           \<and> set (targets ob) = {el \<in> set doc. \<exists>c\<in>set tracked_classes. c \<in> set (cls el)})"
    using init_page_observer [of e0 doc cls container] by blast
  have step: "observer ?P = Some ob \<and> t \<in> set (targets ob) \<and> changes t = Some True \<longrightarrow>
        ''animate-in'' \<in> set (classList (notify e changes ?P) t)
        \<and> count_list (revealed (notify e changes ?P)) t = 1
        \<and> (\<exists>ob'. observer (notify e changes ?P) = Some ob' \<and> t \<notin> set (targets ob'))
        \<and> (''exhibition-benefits'' \<in> set (classList ?P t) \<longrightarrow>
            benefitsSlider (notify e changes ?P) = map_option (eb_init e) (benefitsSlider ?P))
        \<and> count_list (revealed (page_run later (notify e changes ?P))) t = 1"
  proof
    assume a: "observer ?P = Some ob \<and> t \<in> set (targets ob) \<and> changes t = Some True"
    then have o: "observer ?P = Some ob" and m: "t \<in> set (targets ob)"
      and c: "changes t = Some True" by simp_all
    note hit = notify_hit [where changes = changes and t = t and ob = ob and e = e, OF inv o m c]
    have "reveal_inv (page_run later (notify e changes ?P))"
      using inv by (simp add: page_run_inv notify_inv)
    moreover have "t \<in> set (revealed (page_run later (notify e changes ?P)))"
    proof (rule page_run_revealed_mono)
      from hit(2) show "t \<in> set (revealed (notify e changes ?P))"
        using count_list_0_iff [of "revealed (notify e changes ?P)" t] by simp
    qed
    ultimately have "count_list (revealed (page_run later (notify e changes ?P))) t = 1"
      by (simp add: reveal_inv_def count_one)
    with hit show "''animate-in'' \<in> set (classList (notify e changes ?P) t)
        \<and> count_list (revealed (notify e changes ?P)) t = 1
        \<and> (\<exists>ob'. observer (notify e changes ?P) = Some ob' \<and> t \<notin> set (targets ob'))
        \<and> (''exhibition-benefits'' \<in> set (classList ?P t) \<longrightarrow>
            benefitsSlider (notify e changes ?P) = map_option (eb_init e) (benefitsSlider ?P))
        \<and> count_list (revealed (page_run later (notify e changes ?P))) t = 1"
      by blast
  qed
  have quiet: "on_entry e (t, False) p = p" by simp
  from once opts step quiet eb_init_activated [of e b] show ?thesis by blast
qed

text \<open>
  The sample page: the benefits section (element 5) becomes visible while the stats
  section (element 1) is reported as not intersecting, and is reported again later.
\<close>

theorem reveal_once_witness:
  "\<not> prefersReducedMotion demo_env
   \<and> observer (demo_page demo_env)
       = Some \<lparr>threshold = 1 / 10, rootMargin = ''0px 0px -50px 0px'',
               targets = [1, 2, 3, 4, 5]\<rparr>
   \<and> ''exhibition-benefits'' \<in> set (classList (demo_page demo_env) 5)
   \<and> ''animate-in'' \<in> set (classList
        (notify demo_env [5 \<mapsto> True, 1 \<mapsto> False] (demo_page demo_env)) 5)
   \<and> count_list (revealed
        (notify demo_env [5 \<mapsto> True, 1 \<mapsto> False] (demo_page demo_env))) 5 = 1
   \<and> benefitsSlider (notify demo_env [5 \<mapsto> True, 1 \<mapsto> False] (demo_page demo_env))
       = Some demo_eb
   \<and> eb_activated demo_eb
   \<and> count_list (revealed (page_run [(demo_env, Notify [5 \<mapsto> True])]
        (notify demo_env [5 \<mapsto> True, 1 \<mapsto> False] (demo_page demo_env)))) 5 = 1"
  using reveal_once [where evs = "[]" and ?e0.0 = demo_env and doc = "[0, 1, 2, 3, 4, 5]"
      and cls = demo_classes and container = "Some (True, 5, Some True, Some False)"
      and t = 5 and changes = "[5 \<mapsto> True, 1 \<mapsto> False]" and e = demo_env
      and ob = "\<lparr>threshold = 1 / 10, rootMargin = ''0px 0px -50px 0px'',
                  targets = [1, 2, 3, 4, 5]\<rparr>"
      and later = "[(demo_env, Notify [5 \<mapsto> True])]",
      folded demo_page_def]
  by (simp add: page_run_def [of "[]"] demo_page_observer demo_page_fields demo_eb_def
        demo_eb_eq [unfolded demo_eb_def])
     (simp add: demo_classes_def)

subsection \<open>Reduced motion (claim C9)\<close>

text \<open>
  Claim C9. When reduced motion is preferred at start-up, no observer is installed, and
  then, whatever the browser reports and whatever the user does afterwards, no class is
  ever added to any section, the reveal trace stays empty and the benefits slider stays
  as its constructor left it: never activated.
\<close>

theorem reduced_motion_stays_dormant:
  assumes "prefersReducedMotion e0"
  shows "observer (page_run evs (init_page e0 doc cls container)) = None
    \<and> classList (page_run evs (init_page e0 doc cls container)) = cls
    \<and> revealed (page_run evs (init_page e0 doc cls container)) = []
    \<and> benefitsSlider (page_run evs (init_page e0 doc cls container))
        = map_option (\<lambda>(track, n, prevBtn, nextBtn). eb_new e0 track n prevBtn nextBtn False)
            container
    \<and> (\<forall>b. benefitsSlider (page_run evs (init_page e0 doc cls container)) = Some b \<longrightarrow>
          \<not> eb_activated b)"
proof -
  let ?bs = "map_option (\<lambda>(track, n, prevBtn, nextBtn). eb_new e0 track n prevBtn nextBtn False)
            container"
  have lazy: "\<forall>b. ?bs = Some b \<longrightarrow> \<not> eb_activated b"
    by (cases container) (auto simp add: eb_new_lazy)
  have "dormant cls ?bs (init_page e0 doc cls container)"
    using assms by (simp add: dormant_def init_page_def initScrollAnimations_def)
  from page_run_dormant [OF lazy this, of evs] lazy show ?thesis
    by (simp add: dormant_def)
qed

text \<open>
  The sample page under reduced motion: a visibility report for the benefits section
  and a click on its next button change nothing.
\<close>

theorem reduced_motion_stays_dormant_witness:
  "prefersReducedMotion (demo_env\<lparr>prefersReducedMotion := True\<rparr>)
   \<and> observer (page_run [(demo_env, Notify [5 \<mapsto> True]), (demo_env, Benefits EbNext)]
        (demo_page (demo_env\<lparr>prefersReducedMotion := True\<rparr>))) = None
   \<and> classList (page_run [(demo_env, Notify [5 \<mapsto> True]), (demo_env, Benefits EbNext)]
        (demo_page (demo_env\<lparr>prefersReducedMotion := True\<rparr>))) 5 = [''exhibition-benefits'']
   \<and> revealed (page_run [(demo_env, Notify [5 \<mapsto> True]), (demo_env, Benefits EbNext)]
        (demo_page (demo_env\<lparr>prefersReducedMotion := True\<rparr>))) = []
   \<and> map_option eb_activated
        (benefitsSlider (page_run [(demo_env, Notify [5 \<mapsto> True]), (demo_env, Benefits EbNext)]
           (demo_page (demo_env\<lparr>prefersReducedMotion := True\<rparr>)))) = Some False"
proof -
  have h: "prefersReducedMotion (demo_env\<lparr>prefersReducedMotion := True\<rparr>)" by simp
  from reduced_motion_stays_dormant [OF h,
      of "[(demo_env, Notify [5 \<mapsto> True]), (demo_env, Benefits EbNext)]"
        "[0, 1, 2, 3, 4, 5]" demo_classes "Some (True, 5, Some True, Some False)",
      folded demo_page_def]
  show ?thesis by (simp add: demo_classes_def eb_new_lazy)
qed

end
